theory Spec2Isabelle
  imports Main "HOL-Library.Monad_Syntax" "HOL-Library.Sublist"
begin

section \<open>The P3 power HAL (power/power.c)\<close>

text \<open>
  The module keeps three static character arrays and one flag, and talks to the kernel
  through four sysfs attributes.  The embedding separates the module's static variables
  (\<open>globals\<close>) from everything that lives outside it (\<open>os\<close>): the contents of the
  sysfs attributes, the outcome of the system calls still to come, the log of the calls
  made so far, and the indeterminate bytes a fresh stack buffer holds.
\<close>

subsection \<open>C strings in fixed arrays\<close>

abbreviation NUL :: char where
  "NUL \<equiv> CHR 0x00"

text \<open>A string literal \<open>"abc"\<close> is the array of its characters followed by one NUL.\<close>

definition c_lit :: "string \<Rightarrow> char list" where
  "c_lit str = str @ [NUL]"

text \<open>\<open>char a[n] = "abc"\<close>: the characters, the rest of the array zero.\<close>

definition c_array :: "nat \<Rightarrow> string \<Rightarrow> char list" where
  "c_array n str = str @ replicate (n - length str) NUL"

text \<open>
  \<open>strlen\<close> walks the array up to the first NUL.  An array without NUL makes it read
  past the end of the object, which C leaves undefined: the model answers \<open>None\<close>.
\<close>

fun strlen :: "char list \<Rightarrow> nat option" where
  "strlen [] = None"
| "strlen (c # cs) = (if c = NUL then Some 0 else map_option Suc (strlen cs))"

text \<open>
  \<open>strncmp\<close> compares at most \<open>n\<close> characters as unsigned bytes and stops after a NUL
  common to both; \<open>None\<close> again stands for a read past the end of an array.
\<close>

fun strncmp :: "char list \<Rightarrow> char list \<Rightarrow> nat \<Rightarrow> int option" where
  "strncmp a b 0 = Some 0"
| "strncmp (x # xs) (y # ys) (Suc n) =
     (if x \<noteq> y then Some (of_char x - of_char y)
      else if x = NUL then Some 0
      else strncmp xs ys n)"
| "strncmp a b (Suc n) = None"

text \<open>\<open>memset (buf + off, c, n)\<close> and \<open>memcpy (dst, src, n)\<close> on arrays.\<close>

definition memset :: "char list \<Rightarrow> nat \<Rightarrow> char \<Rightarrow> nat \<Rightarrow> char list" where
  "memset buf off c n = take off buf @ replicate n c @ drop (off + n) buf"

definition memcpy :: "char list \<Rightarrow> char list \<Rightarrow> nat \<Rightarrow> char list" where
  "memcpy dst src n = take n src @ drop n dst"

text \<open>The value of a C string: the characters before the first NUL.\<close>

definition cstr :: "char list \<Rightarrow> string" where
  "cstr a = takeWhile (\<lambda>c. c \<noteq> NUL) a"

subsection \<open>Constants of the module\<close>

definition CPU0_SCALINGMAXFREQ_PATH :: string where
  "CPU0_SCALINGMAXFREQ_PATH = ''/sys/devices/system/cpu/cpu0/cpufreq/scaling_max_freq''"

definition CPU1_SCALINGMAXFREQ_PATH :: string where
  "CPU1_SCALINGMAXFREQ_PATH = ''/sys/devices/system/cpu/cpu1/cpufreq/scaling_max_freq''"

definition TOUCH_SUSPEND_PATH :: string where
  "TOUCH_SUSPEND_PATH = ''/sys/bus/i2c/drivers/sec_touch/4-004c/mxt1386/suspended''"

definition MPU3050_SUSPEND_PATH :: string where
  "MPU3050_SUSPEND_PATH = ''/sys/bus/i2c/drivers/mpu3050/0-0068/mpu3050/suspended''"

definition LOW_POWER_MAX_FREQ :: string where
  "LOW_POWER_MAX_FREQ = ''456000''"

definition LOW_POWER_MIN_FREQ :: string where
  "LOW_POWER_MIN_FREQ = ''150000''"

definition NORMAL_MAX_FREQ :: string where
  "NORMAL_MAX_FREQ = ''1000000''"

definition MAX_BUF_SZ :: nat where
  "MAX_BUF_SZ = 10"

text \<open>
  \<open>screen_off_max_freq\<close> is a static array that no function of the module assigns, so it
  is a constant of the model.
\<close>

definition screen_off_max_freq :: "char list" where
  "screen_off_max_freq = c_array MAX_BUF_SZ ''456000''"

subsection \<open>State\<close>

record globals =
  scaling_max_freq :: "char list"
  normal_max_freq :: "char list"
  low_power_mode :: bool

definition initial_globals :: globals where
  "initial_globals =
     \<lparr> scaling_max_freq = c_array MAX_BUF_SZ ''1000000'',
       normal_max_freq = c_array MAX_BUF_SZ ''1000000'',
       low_power_mode = False \<rparr>"

datatype errno = EINTR | ENOENT | EACCES | EIO | EBADF

datatype oflag = O_RDONLY | O_WRONLY

datatype event =
    Open string oflag
  | Read string
  | Write string "char list"
  | Close string
  | ALOGE_opening string errno
  | ALOGE_writing string errno
  | ALOGI_stored string
  | ALOGV string
  | Mutex_lock
  | Mutex_unlock

text \<open>
  \<open>files\<close> gives the bytes a sysfs attribute reads as (\<open>None\<close>: the path does not exist).
  \<open>faults\<close> scripts the system calls to come, one entry per call of \<open>open\<close>, \<open>read\<close> or
  \<open>write\<close>: \<open>Some e\<close> makes the call fail with \<open>errno = e\<close>, \<open>None\<close> lets it run; once the
  script is used up calls run undisturbed.  \<open>trace\<close> logs every call, oldest first.
  \<open>garbage\<close> is what uninitialised stack memory holds.
\<close>

record os =
  files :: "string \<rightharpoonup> char list"
  faults :: "errno option list"
  trace :: "event list"
  garbage :: "nat \<Rightarrow> char"

definition emit :: "event \<Rightarrow> os \<Rightarrow> os" where
  "emit e k = k\<lparr>trace := trace k @ [e]\<rparr>"

definition next_fault :: "os \<Rightarrow> errno option \<times> os" where
  "next_fault k = (case faults k of [] \<Rightarrow> (None, k) | f # fs \<Rightarrow> (f, k\<lparr>faults := fs\<rparr>))"

subsection \<open>System calls\<close>

text \<open>A file descriptor is modelled by the path it was opened on.\<close>

definition sys_open :: "string \<Rightarrow> oflag \<Rightarrow> os \<Rightarrow> (errno + string) \<times> os" where
  "sys_open path fl k =
     (case next_fault (emit (Open path fl) k) of
        (Some e, k1) \<Rightarrow> (Inl e, k1)
      | (None, k1) \<Rightarrow>
          (case files k1 path of
             None \<Rightarrow> (Inl ENOENT, k1)
           | Some c \<Rightarrow> (Inr path, k1)))"

text \<open>\<open>read\<close> delivers the attribute's bytes, at most \<open>size\<close> of them.\<close>

definition sys_read :: "string \<Rightarrow> nat \<Rightarrow> os \<Rightarrow> (errno + char list) \<times> os" where
  "sys_read fd sz k =
     (case next_fault (emit (Read fd) k) of
        (Some e, k1) \<Rightarrow> (Inl e, k1)
      | (None, k1) \<Rightarrow>
          (case files k1 fd of
             None \<Rightarrow> (Inl EBADF, k1)
           | Some c \<Rightarrow> (Inr (take sz c), k1)))"

text \<open>A write that succeeds sets the attribute: it reads back as the bytes written.\<close>

definition sys_write :: "string \<Rightarrow> char list \<Rightarrow> os \<Rightarrow> (errno + nat) \<times> os" where
  "sys_write fd bytes k =
     (case next_fault (emit (Write fd bytes) k) of
        (Some e, k1) \<Rightarrow> (Inl e, k1)
      | (None, k1) \<Rightarrow> (Inr (length bytes), k1\<lparr>files := (files k1)(fd \<mapsto> bytes)\<rparr>))"

definition sys_close :: "string \<Rightarrow> os \<Rightarrow> os" where
  "sys_close fd k = emit (Close fd) k"

subsection \<open>sysfs\_read and sysfs\_write\<close>

text \<open>
  The loop \<open>do len = read (...) while (len < 0 && errno == EINTR)\<close>.  Every interrupted
  \<open>read\<close> uses up one entry of the finite fault script, which is why the loop ends.
\<close>

function read_retry :: "string \<Rightarrow> nat \<Rightarrow> os \<Rightarrow> (errno + char list) \<times> os" where
  "read_retry fd sz k =
     (case sys_read fd sz k of
        (Inl e, k1) \<Rightarrow> if e = EINTR then read_retry fd sz k1 else (Inl e, k1)
      | (Inr bytes, k1) \<Rightarrow> (Inr bytes, k1))"
  by pat_completeness auto

termination read_retry
  by (relation "measure (\<lambda>(fd, sz, k). length (faults k))")
     (auto simp: sys_read_def next_fault_def emit_def split: list.splits option.splits)

declare read_retry.simps [simp del]

text \<open>
  \<open>sysfs_read (path, buf, size)\<close> returns the length read (or \<open>-1\<close>) and the buffer as it
  leaves it: the bytes read at its start, and zeros from there up to \<open>size\<close> when fewer
  than \<open>size\<close> bytes were read.  The buffer has room for \<open>size\<close> bytes, as at the one
  call in the module.
\<close>

definition sysfs_read :: "string \<Rightarrow> char list \<Rightarrow> nat \<Rightarrow> os \<Rightarrow> (int \<times> char list) \<times> os" where
  "sysfs_read path buf sz k =
     (case sys_open path O_RDONLY k of
        (Inl e, k1) \<Rightarrow> ((- 1, buf), k1)
      | (Inr fd, k1) \<Rightarrow>
          (case read_retry fd sz k1 of
             (Inl e, k2) \<Rightarrow> ((- 1, buf), sys_close fd k2)
           | (Inr bytes, k2) \<Rightarrow>
               (let len = length bytes;
                    buf1 = bytes @ drop len buf;
                    k3 = sys_close fd k2;
                    buf2 = (if len < sz then memset buf1 len NUL (sz - len) else buf1)
                in ((int len, buf2), k3))))"

text \<open>
  \<open>sysfs_write (path, s)\<close>: \<open>strlen (s)\<close> is evaluated only once the file is open.
\<close>

definition sysfs_write :: "string \<Rightarrow> char list \<Rightarrow> os \<Rightarrow> (int \<times> os) option" where
  "sysfs_write path s k =
     (case sys_open path O_WRONLY k of
        (Inl e, k1) \<Rightarrow> Some (- 1, emit (ALOGE_opening path e) k1)
      | (Inr fd, k1) \<Rightarrow>
          (case strlen s of
             None \<Rightarrow> None
           | Some n \<Rightarrow>
               (case sys_write fd (take n s) k1 of
                  (Inl e, k2) \<Rightarrow> Some (- 1, sys_close fd (emit (ALOGE_writing path e) k2))
                | (Inr len, k2) \<Rightarrow> Some (0, sys_close fd k2))))"

subsection \<open>store\_max\_freq\<close>

text \<open>The argument of \<open>store_max_freq\<close> points to one of two static arrays.\<close>

datatype freq_var = Scaling_max_freq | Normal_max_freq

fun get_var :: "freq_var \<Rightarrow> globals \<Rightarrow> char list" where
  "get_var Scaling_max_freq g = scaling_max_freq g"
| "get_var Normal_max_freq g = normal_max_freq g"

fun set_var :: "freq_var \<Rightarrow> char list \<Rightarrow> globals \<Rightarrow> globals" where
  "set_var Scaling_max_freq v g = g\<lparr>scaling_max_freq := v\<rparr>"
| "set_var Normal_max_freq v g = g\<lparr>normal_max_freq := v\<rparr>"

text \<open>The local \<open>char buf[MAX_BUF_SZ]\<close> as it is before anything is stored in it.\<close>

definition fresh_buf :: "os \<Rightarrow> char list" where
  "fresh_buf k = map (garbage k) [0 ..< MAX_BUF_SZ]"

definition store_max_freq :: "freq_var \<Rightarrow> globals \<times> os \<Rightarrow> (globals \<times> os) option" where
  "store_max_freq max_freq s =
     (case s of (g, k) \<Rightarrow>
        (case sysfs_read CPU0_SCALINGMAXFREQ_PATH (fresh_buf k) MAX_BUF_SZ k of
           ((len, buf), k1) \<Rightarrow>
             if len \<noteq> - 1 then
               do {
                 n \<leftarrow> strlen screen_off_max_freq;
                 c \<leftarrow> strncmp buf screen_off_max_freq n;
                 if c \<noteq> 0 \<and> \<not> low_power_mode g
                 then Some (set_var max_freq (memcpy (get_var max_freq g) buf MAX_BUF_SZ) g, k1)
                 else Some (g, k1)
               }
             else Some (g, k1)))"

subsection \<open>Entry points\<close>

definition p3_power_init :: "globals \<times> os \<Rightarrow> (globals \<times> os) option" where
  "p3_power_init s =
     do {
       (g, k) \<leftarrow> store_max_freq Scaling_max_freq s;
       n \<leftarrow> strlen (scaling_max_freq g);
       Some (g, emit (ALOGI_stored (take n (scaling_max_freq g))) k)
     }"

definition p3_power_set_interactive :: "int \<Rightarrow> globals \<times> os \<Rightarrow> (globals \<times> os) option" where
  "p3_power_set_interactive on s =
     (if on = 0 then
        do {
          (g, k) \<leftarrow> store_max_freq Scaling_max_freq s;
          (r, k) \<leftarrow> sysfs_write CPU0_SCALINGMAXFREQ_PATH screen_off_max_freq k;
          (r, k) \<leftarrow> sysfs_write CPU1_SCALINGMAXFREQ_PATH screen_off_max_freq k;
          (r, k) \<leftarrow> sysfs_write TOUCH_SUSPEND_PATH (c_lit ''1'') k;
          (r, k) \<leftarrow> sysfs_write MPU3050_SUSPEND_PATH (c_lit ''1'') k;
          Some (g, k)
        }
      else if low_power_mode (fst s) then
        do {
          (g, k) \<leftarrow> store_max_freq Scaling_max_freq s;
          (r, k) \<leftarrow> sysfs_write CPU0_SCALINGMAXFREQ_PATH (c_lit LOW_POWER_MAX_FREQ) k;
          (r, k) \<leftarrow> sysfs_write CPU1_SCALINGMAXFREQ_PATH (c_lit LOW_POWER_MAX_FREQ) k;
          Some (g, k)
        }
      else
        (case s of (g, k) \<Rightarrow>
           do {
             (r, k) \<leftarrow> sysfs_write CPU0_SCALINGMAXFREQ_PATH (scaling_max_freq g) k;
             (r, k) \<leftarrow> sysfs_write CPU1_SCALINGMAXFREQ_PATH (scaling_max_freq g) k;
             (r, k) \<leftarrow> sysfs_write TOUCH_SUSPEND_PATH (c_lit ''0'') k;
             (r, k) \<leftarrow> sysfs_write MPU3050_SUSPEND_PATH (c_lit ''0'') k;
             Some (g, k)
           }))"

text \<open>
  Modelled from the spec: the enumeration \<open>power_hint_t\<close> is declared in
  \<open>hardware/power.h\<close>, which is not part of the repository.  The hints the switch names
  are constructors; \<open>POWER_HINT_OTHER\<close> stands for every other value of the type.
\<close>

datatype power_hint_t =
    POWER_HINT_VSYNC
  | POWER_HINT_INTERACTION
  | POWER_HINT_LOW_POWER
  | POWER_HINT_LAUNCH
  | POWER_HINT_OTHER nat

text \<open>\<open>data\<close> is a pointer, tested against NULL only: \<open>0\<close> is NULL.\<close>

definition p3_power_hint :: "power_hint_t \<Rightarrow> nat \<Rightarrow> globals \<times> os \<Rightarrow> (globals \<times> os) option" where
  "p3_power_hint hint data s =
     (case s of (g, k) \<Rightarrow>
        (case hint of
           POWER_HINT_VSYNC \<Rightarrow> Some (g, k)
         | POWER_HINT_LOW_POWER \<Rightarrow>
             (let k = emit Mutex_lock k in
              if data \<noteq> 0 then
                do {
                  (g, k) \<leftarrow> store_max_freq Normal_max_freq (g, k);
                  let g = g\<lparr>low_power_mode := True\<rparr>;
                  (r, k) \<leftarrow> sysfs_write CPU0_SCALINGMAXFREQ_PATH (c_lit LOW_POWER_MAX_FREQ) k;
                  (r, k) \<leftarrow> sysfs_write CPU1_SCALINGMAXFREQ_PATH (c_lit LOW_POWER_MAX_FREQ) k;
                  Some (g, emit Mutex_unlock k)
                }
              else
                do {
                  let g = g\<lparr>low_power_mode := False\<rparr>;
                  (r, k) \<leftarrow> sysfs_write CPU0_SCALINGMAXFREQ_PATH (normal_max_freq g) k;
                  (r, k) \<leftarrow> sysfs_write CPU1_SCALINGMAXFREQ_PATH (normal_max_freq g) k;
                  Some (g, emit Mutex_unlock k)
                })
         | POWER_HINT_LAUNCH \<Rightarrow> Some (g, emit (ALOGV ''POWER_HINT_LAUNCH'') k)
         | _ \<Rightarrow> Some (g, k)))"

text \<open>The three entry points the module registers, as one dispatcher.\<close>

datatype call = Init | SetInteractive int | PowerHint power_hint_t nat

fun entry :: "call \<Rightarrow> globals \<times> os \<Rightarrow> (globals \<times> os) option" where
  "entry Init s = p3_power_init s"
| "entry (SetInteractive on) s = p3_power_set_interactive on s"
| "entry (PowerHint hint data) s = p3_power_hint hint data s"

text \<open>
  A run of the host: a list of calls, each with the environment it meets.  \<open>screen_on\<close>
  is what the host has told the module about the display so far: the argument of the last
  \<open>setInteractive\<close>, and on before the first.
\<close>

fun run :: "(call \<times> os) list \<Rightarrow> globals \<Rightarrow> globals option" where
  "run [] g = Some g"
| "run ((c, k) # rest) g =
     (case entry c (g, k) of None \<Rightarrow> None | Some (g', k') \<Rightarrow> run rest g')"

fun screen_after :: "bool \<Rightarrow> call list \<Rightarrow> bool" where
  "screen_after b [] = b"
| "screen_after b (SetInteractive on # cs) = screen_after (on \<noteq> 0) cs"
| "screen_after b (c # cs) = screen_after b cs"

definition screen_on :: "call list \<Rightarrow> bool" where
  "screen_on cs = screen_after True cs"

subsection \<open>Observations\<close>

text \<open>What a trace shows: the files opened, the data handed to \<open>write\<close>, the log lines.\<close>

fun opened :: "event list \<Rightarrow> (string \<times> oflag) list" where
  "opened [] = []"
| "opened (Open p fl # t) = (p, fl) # opened t"
| "opened (e # t) = opened t"

fun written :: "event list \<Rightarrow> (string \<times> char list) list" where
  "written [] = []"
| "written (Write p bytes # t) = (p, bytes) # written t"
| "written (e # t) = written t"

fun is_log :: "event \<Rightarrow> bool" where
  "is_log (ALOGE_opening p e) = True"
| "is_log (ALOGE_writing p e) = True"
| "is_log (ALOGI_stored v) = True"
| "is_log (ALOGV m) = True"
| "is_log e = False"

definition logged :: "event list \<Rightarrow> event list" where
  "logged t = filter is_log t"

text \<open>
  What \<open>sysfs_read\<close> leaves in a buffer of \<open>sz\<close> bytes after reading an attribute whose
  contents are \<open>c\<close>: the bytes read, then zeros.
\<close>

definition read_buf :: "nat \<Rightarrow> char list \<Rightarrow> char list" where
  "read_buf sz c = take sz c @ replicate (sz - length c) NUL"

text \<open>
  An environment without failures: no fault is scripted and the four attributes exist.
\<close>

definition fault_free :: "os \<Rightarrow> bool" where
  "fault_free k \<longleftrightarrow>
     faults k = [] \<and>
     files k CPU0_SCALINGMAXFREQ_PATH \<noteq> None \<and>
     files k CPU1_SCALINGMAXFREQ_PATH \<noteq> None \<and>
     files k TOUCH_SUSPEND_PATH \<noteq> None \<and>
     files k MPU3050_SUSPEND_PATH \<noteq> None"

text \<open>
  The system calls in a trace, without the log lines and the mutex operations.
\<close>

fun is_io :: "event \<Rightarrow> bool" where
  "is_io (Open p fl) = True"
| "is_io (Read p) = True"
| "is_io (Write p bytes) = True"
| "is_io (Close p) = True"
| "is_io e = False"

definition io :: "event list \<Rightarrow> event list" where
  "io t = filter is_io t"

subsection \<open>Best-effort accesses\<close>

text \<open>
  What an operation owes to the attributes, as the description of the three operations
  has it: a list of accesses, each a read of an attribute or a write of a given string to
  it, each to be made whatever became of the ones before it.

  One access goes like this.  The file is opened; if the script refuses the call, or the
  file does not exist, that is all.  Otherwise a read is issued, and issued again as long
  as it is interrupted, or the string is handed to one \<open>write\<close>; then the file is closed.
  \<open>attempt\<close> gives the system calls of one access and what is left of the fault script,
  \<open>attempts\<close> those of a list of accesses, one after the other.
\<close>

datatype access = Reads string | Writes string "char list"

fun refused :: "errno option list \<Rightarrow> bool" where
  "refused (Some e # script) = True"
| "refused script = False"

definition interrupts :: "errno option list \<Rightarrow> nat" where
  "interrupts script = length (takeWhile (\<lambda>f. f = Some EINTR) script)"

definition present :: "os \<Rightarrow> string \<Rightarrow> bool" where
  "present k p \<longleftrightarrow> files k p \<noteq> None"

fun attempt ::
  "(string \<Rightarrow> bool) \<Rightarrow> access \<Rightarrow> errno option list \<Rightarrow> event list \<times> errno option list"
where
  "attempt there (Writes p bytes) script =
     (if refused script \<or> \<not> there p
      then ([Open p O_WRONLY], drop 1 script)
      else ([Open p O_WRONLY, Write p bytes, Close p], drop 2 script))"
| "attempt there (Reads p) script =
     (if refused script \<or> \<not> there p
      then ([Open p O_RDONLY], drop 1 script)
      else (Open p O_RDONLY # replicate (Suc (interrupts (drop 1 script))) (Read p) @ [Close p],
            drop (Suc (Suc (interrupts (drop 1 script)))) script))"

fun attempts ::
  "(string \<Rightarrow> bool) \<Rightarrow> access list \<Rightarrow> errno option list \<Rightarrow> event list \<times> errno option list"
where
  "attempts there [] script = ([], script)"
| "attempts there (a # as) script =
     (case attempt there a script of
        (t, rest) \<Rightarrow> (case attempts there as rest of (t', rest') \<Rightarrow> (t @ t', rest')))"

text \<open>
  The accesses of each entry point: \<open>init\<close> reads the CPU0 attribute; screen off reads
  it, writes the screen-off frequency to both CPU attributes and \<open>1\<close> to both suspend
  attributes; screen on in low-power mode reads it and writes the low-power maximum to
  both CPU attributes; screen on otherwise writes the stored frequency to both CPU
  attributes and \<open>0\<close> to both suspend attributes; the low-power hint reads and writes
  the low-power maximum when enabling, and writes the normal frequency when disabling;
  every other hint touches nothing.  \<open>flag_after\<close> is the low-power flag the call leaves.
\<close>

fun plan :: "call \<Rightarrow> globals \<Rightarrow> access list" where
  "plan Init g = [Reads CPU0_SCALINGMAXFREQ_PATH]"
| "plan (SetInteractive on) g =
     (if on = 0 then
        [Reads CPU0_SCALINGMAXFREQ_PATH,
         Writes CPU0_SCALINGMAXFREQ_PATH ''456000'', Writes CPU1_SCALINGMAXFREQ_PATH ''456000'',
         Writes TOUCH_SUSPEND_PATH ''1'', Writes MPU3050_SUSPEND_PATH ''1'']
      else if low_power_mode g then
        [Reads CPU0_SCALINGMAXFREQ_PATH,
         Writes CPU0_SCALINGMAXFREQ_PATH LOW_POWER_MAX_FREQ,
         Writes CPU1_SCALINGMAXFREQ_PATH LOW_POWER_MAX_FREQ]
      else
        [Writes CPU0_SCALINGMAXFREQ_PATH (cstr (scaling_max_freq g)),
         Writes CPU1_SCALINGMAXFREQ_PATH (cstr (scaling_max_freq g)),
         Writes TOUCH_SUSPEND_PATH ''0'', Writes MPU3050_SUSPEND_PATH ''0''])"
| "plan (PowerHint hint data) g =
     (if hint = POWER_HINT_LOW_POWER then
        (if data \<noteq> 0 then
           [Reads CPU0_SCALINGMAXFREQ_PATH,
            Writes CPU0_SCALINGMAXFREQ_PATH LOW_POWER_MAX_FREQ,
            Writes CPU1_SCALINGMAXFREQ_PATH LOW_POWER_MAX_FREQ]
         else
           [Writes CPU0_SCALINGMAXFREQ_PATH (cstr (normal_max_freq g)),
            Writes CPU1_SCALINGMAXFREQ_PATH (cstr (normal_max_freq g))])
      else [])"

fun flag_after :: "call \<Rightarrow> globals \<Rightarrow> bool" where
  "flag_after (PowerHint hint data) g =
     (if hint = POWER_HINT_LOW_POWER then data \<noteq> 0 else low_power_mode g)"
| "flag_after c g = low_power_mode g"

subsection \<open>Sample environments\<close>

text \<open>
  A device whose two frequency attributes read \<open>freq\<close> and whose two suspend attributes
  read \<open>0\<close>, with a given script of faults and an empty trace.
\<close>

definition sample_os :: "char list \<Rightarrow> errno option list \<Rightarrow> os" where
  "sample_os freq script =
     \<lparr> files = [CPU0_SCALINGMAXFREQ_PATH \<mapsto> freq, CPU1_SCALINGMAXFREQ_PATH \<mapsto> freq,
                 TOUCH_SUSPEND_PATH \<mapsto> ''0'', MPU3050_SUSPEND_PATH \<mapsto> ''0''],
       faults = script, trace = [], garbage = (\<lambda>i. CHR ''?'') \<rparr>"

section \<open>Facts about the model\<close>

subsection \<open>C strings\<close>

lemma strlen_Some_iff: "(\<exists>n. strlen a = Some n) \<longleftrightarrow> NUL \<in> set a"
  by (induction a) auto

lemma strlen_None_iff: "strlen a = None \<longleftrightarrow> NUL \<notin> set a"
  using strlen_Some_iff [of a] by auto

lemma strlen_cstr: "strlen a = Some n \<Longrightarrow> take n a = cstr a \<and> n = length (cstr a)"
  by (induction a arbitrary: n) (auto simp: cstr_def split: if_splits)

lemma strncmp_prefix:
  "n \<le> length a \<Longrightarrow> n \<le> length b \<Longrightarrow> NUL \<notin> set (take n b) \<Longrightarrow>
   \<exists>c. strncmp a b n = Some c \<and> (c = 0 \<longleftrightarrow> take n a = take n b)"
  by (induction a b n rule: strncmp.induct) auto

lemma strlen_screen_off: "strlen screen_off_max_freq = Some 6"
  by (simp add: screen_off_max_freq_def c_array_def MAX_BUF_SZ_def eval_nat_numeral)

lemma cstr_screen_off: "cstr screen_off_max_freq = ''456000''"
  by (simp add: screen_off_max_freq_def c_array_def MAX_BUF_SZ_def cstr_def)

lemma strncmp_screen_off:
  assumes "length buf = MAX_BUF_SZ"
  shows "\<exists>c. strncmp buf screen_off_max_freq 6 = Some c \<and> (c = 0 \<longleftrightarrow> take 6 buf = ''456000'')"
proof -
  have "\<exists>c. strncmp buf screen_off_max_freq 6 = Some c \<and>
          (c = 0 \<longleftrightarrow> take 6 buf = take 6 screen_off_max_freq)"
    using assms
    by (intro strncmp_prefix) (simp_all add: screen_off_max_freq_def c_array_def MAX_BUF_SZ_def)
  then show ?thesis
    by (simp add: screen_off_max_freq_def c_array_def MAX_BUF_SZ_def)
qed

subsection \<open>Traces and system calls\<close>

lemma opened_append: "opened (a @ b) = opened a @ opened b"
  by (induction a rule: opened.induct) simp_all

lemma written_append: "written (a @ b) = written a @ written b"
  by (induction a rule: written.induct) simp_all

lemma logged_append: "logged (a @ b) = logged a @ logged b"
  by (simp add: logged_def)

lemma sysfs_write_summary:
  assumes "strlen s = Some n"
  shows "\<exists>r k' t. sysfs_write p s k = Some (r, k') \<and> trace k' = trace k @ t \<and>
           opened t = [(p, O_WRONLY)] \<and> subseq (written t) [(p, take n s)] \<and>
           (\<forall>q. files k q \<noteq> None \<longrightarrow> files k' q \<noteq> None)"
  using assms
  by (auto simp: sysfs_write_def sys_open_def sys_write_def sys_close_def next_fault_def
      emit_def split: list.splits option.splits)

lemma sysfs_write_ok:
  assumes "strlen s = Some n" and "faults k = []" and "files k p \<noteq> None"
  shows "sysfs_write p s k =
           Some (0, k\<lparr>trace := trace k @ [Open p O_WRONLY, Write p (take n s), Close p],
                       files := (files k)(p \<mapsto> take n s)\<rparr>)"
  using assms
  by (auto simp: sysfs_write_def sys_open_def sys_write_def sys_close_def next_fault_def
      emit_def split: list.splits option.splits)

lemma read_retry_summary:
  "\<exists>r k' t. read_retry fd sz k = (r, k') \<and> trace k' = trace k @ t \<and>
     opened t = [] \<and> written t = [] \<and> logged t = [] \<and> files k' = files k \<and>
     (\<forall>bytes. r = Inr bytes \<longrightarrow> length bytes \<le> sz)"
proof (induction fd sz k rule: read_retry.induct)
  case (1 fd sz k)
  show ?case
  proof (cases "sys_read fd sz k")
    case (Pair r k1)
    have k1: "trace k1 = trace k @ [Read fd]" "files k1 = files k"
      using Pair by (auto simp: sys_read_def next_fault_def emit_def split: list.splits option.splits)
    show ?thesis
    proof (cases "r = Inl EINTR")
      case True
      from 1 [OF Pair [symmetric] True refl]
      obtain r' k' t where "read_retry fd sz k1 = (r', k')" "trace k' = trace k1 @ t"
        "opened t = []" "written t = []" "logged t = []" "files k' = files k1"
        "\<forall>bytes. r' = Inr bytes \<longrightarrow> length bytes \<le> sz"
        by blast
      then show ?thesis
        using Pair True k1
        by (subst read_retry.simps) (simp add: logged_def)
    next
      case False
      have "\<forall>bytes. r = Inr bytes \<longrightarrow> length bytes \<le> sz"
        using Pair by (auto simp: sys_read_def next_fault_def emit_def split: list.splits option.splits)
      then show ?thesis
        using Pair False k1
        by (subst read_retry.simps) (auto simp: logged_def split: sum.splits)
    qed
  qed
qed

lemma read_retry_ok:
  assumes "faults k = []" and "files k fd = Some c"
  shows "read_retry fd sz k = (Inr (take sz c), k\<lparr>trace := trace k @ [Read fd]\<rparr>)"
  using assms
  by (subst read_retry.simps) (simp add: sys_read_def next_fault_def emit_def)

lemma sysfs_read_summary:
  "\<exists>len buf' k' t. sysfs_read p buf sz k = ((len, buf'), k') \<and> trace k' = trace k @ t \<and>
     opened t = [(p, O_RDONLY)] \<and> written t = [] \<and> logged t = [] \<and> files k' = files k \<and>
     ((len = - 1 \<and> buf' = buf) \<or>
      (\<exists>bytes. len = int (length bytes) \<and> length bytes \<le> sz \<and>
         buf' = bytes @ replicate (sz - length bytes) NUL @ drop sz buf))"
proof (cases "sys_open p O_RDONLY k")
  case (Pair r k1)
  have k1: "trace k1 = trace k @ [Open p O_RDONLY]" "files k1 = files k"
    using Pair by (auto simp: sys_open_def next_fault_def emit_def split: list.splits option.splits)
  show ?thesis
  proof (cases r)
    case (Inl e)
    then show ?thesis
      using Pair k1 by (simp add: sysfs_read_def logged_def)
  next
    case (Inr fd)
    obtain r2 k2 t2 where rr: "read_retry fd sz k1 = (r2, k2)" "trace k2 = trace k1 @ t2"
      "opened t2 = []" "written t2 = []" "logged t2 = []" "files k2 = files k1"
      "\<forall>bytes. r2 = Inr bytes \<longrightarrow> length bytes \<le> sz"
      using read_retry_summary [of fd sz k1] by blast
    show ?thesis
    proof (cases r2)
      case (Inl e)
      then show ?thesis
        using Pair Inr k1 rr
        by (simp add: sysfs_read_def sys_close_def emit_def opened_append written_append
            logged_append) (simp add: logged_def)
    next
      case r2: (Inr bytes)
      then have len: "length bytes \<le> sz"
        using rr by simp
      have "sysfs_read p buf sz k =
              ((int (length bytes), bytes @ replicate (sz - length bytes) NUL @ drop sz buf),
               sys_close fd k2)"
        using Pair Inr rr(1) r2 len
        by (auto simp: sysfs_read_def Let_def memset_def)
      then show ?thesis
        using k1 rr len
        by (simp add: sys_close_def emit_def opened_append written_append logged_append)
           (auto simp: logged_def intro!: exI [of _ bytes])
    qed
  qed
qed

lemma sysfs_read_ok:
  assumes "faults k = []" and "files k p = Some c"
  shows "sysfs_read p buf sz k =
           ((int (min sz (length c)), read_buf sz c @ drop sz buf),
            k\<lparr>trace := trace k @ [Open p O_RDONLY, Read p, Close p]\<rparr>)"
proof -
  have op: "sys_open p O_RDONLY k = (Inr p, k\<lparr>trace := trace k @ [Open p O_RDONLY]\<rparr>)"
    using assms by (simp add: sys_open_def next_fault_def emit_def)
  have rd: "read_retry p sz (k\<lparr>trace := trace k @ [Open p O_RDONLY]\<rparr>) =
              (Inr (take sz c), k\<lparr>trace := trace k @ [Open p O_RDONLY, Read p]\<rparr>)"
    using assms read_retry_ok [of "k\<lparr>trace := trace k @ [Open p O_RDONLY]\<rparr>" p c sz] by simp
  show ?thesis
    by (auto simp: sysfs_read_def op rd Let_def memset_def read_buf_def sys_close_def emit_def
        min_def)
qed

lemma sysfs_read_pads:
  assumes "sysfs_read p buf sz k = ((len, buf'), k')" and "len \<noteq> - 1" and "sz \<le> length buf"
  shows "0 \<le> len \<and> nat len \<le> sz \<and> length buf' = length buf \<and>
         (\<forall>i. nat len \<le> i \<and> i < sz \<longrightarrow> buf' ! i = NUL) \<and>
         (nat len < sz \<longrightarrow> NUL \<in> set (take sz buf'))"
proof -
  from sysfs_read_summary [of p buf sz k] assms(1,2)
  obtain bytes where b: "len = int (length bytes)" "length bytes \<le> sz"
    "buf' = bytes @ replicate (sz - length bytes) NUL @ drop sz buf"
    by auto
  have "\<forall>i. length bytes \<le> i \<and> i < sz \<longrightarrow> buf' ! i = NUL"
    using b by (auto simp: nth_append)
  moreover have "length bytes < sz \<longrightarrow> NUL \<in> set (take sz buf')"
    using b by auto
  ultimately show ?thesis
    using b assms(3) by auto
qed

subsection \<open>The guard of store\_max\_freq\<close>

lemma length_fresh_buf: "length (fresh_buf k) = MAX_BUF_SZ"
  by (simp add: fresh_buf_def)

lemma store_max_freq_eq:
  "store_max_freq v (g, k) =
     (case sysfs_read CPU0_SCALINGMAXFREQ_PATH (fresh_buf k) MAX_BUF_SZ k of
        ((len, buf), k1) \<Rightarrow>
          Some (if len \<noteq> - 1 \<and> take 6 buf \<noteq> ''456000'' \<and> \<not> low_power_mode g
                then (set_var v (memcpy (get_var v g) buf MAX_BUF_SZ) g, k1)
                else (g, k1)))"
proof (cases "sysfs_read CPU0_SCALINGMAXFREQ_PATH (fresh_buf k) MAX_BUF_SZ k")
  case (Pair r k1)
  obtain len buf where r: "r = (len, buf)"
    by (cases r)
  show ?thesis
  proof (cases "len = - 1")
    case True
    then show ?thesis
      using Pair r by (simp add: store_max_freq_def)
  next
    case False
    have "length buf = MAX_BUF_SZ"
      using sysfs_read_pads [of CPU0_SCALINGMAXFREQ_PATH "fresh_buf k" MAX_BUF_SZ k len buf k1]
        Pair r False by (simp add: length_fresh_buf)
    then obtain c where "strncmp buf screen_off_max_freq 6 = Some c"
      "c = 0 \<longleftrightarrow> take 6 buf = ''456000''"
      using strncmp_screen_off by blast
    then show ?thesis
      using Pair r False by (auto simp: store_max_freq_def strlen_screen_off)
  qed
qed

subsection \<open>Paths and sample environments\<close>

lemma paths_distinct:
  "CPU0_SCALINGMAXFREQ_PATH \<noteq> CPU1_SCALINGMAXFREQ_PATH"
  "CPU0_SCALINGMAXFREQ_PATH \<noteq> TOUCH_SUSPEND_PATH"
  "CPU0_SCALINGMAXFREQ_PATH \<noteq> MPU3050_SUSPEND_PATH"
  "CPU1_SCALINGMAXFREQ_PATH \<noteq> TOUCH_SUSPEND_PATH"
  "CPU1_SCALINGMAXFREQ_PATH \<noteq> MPU3050_SUSPEND_PATH"
  "TOUCH_SUSPEND_PATH \<noteq> MPU3050_SUSPEND_PATH"
  by (simp_all add: CPU0_SCALINGMAXFREQ_PATH_def CPU1_SCALINGMAXFREQ_PATH_def
      TOUCH_SUSPEND_PATH_def MPU3050_SUSPEND_PATH_def)

lemma sample_os_simps:
  "faults (sample_os f sc) = sc"
  "trace (sample_os f sc) = []"
  "files (sample_os f sc) CPU0_SCALINGMAXFREQ_PATH = Some f"
  "files (sample_os f sc) CPU1_SCALINGMAXFREQ_PATH = Some f"
  "files (sample_os f sc) TOUCH_SUSPEND_PATH = Some ''0''"
  "files (sample_os f sc) MPU3050_SUSPEND_PATH = Some ''0''"
  using paths_distinct by (simp_all add: sample_os_def)

lemma strlen_c_lit: "NUL \<notin> set str \<Longrightarrow> strlen (c_lit str) = Some (length str)"
  by (induction str) (auto simp: c_lit_def)

lemma take_c_lit: "take (length str) (c_lit str) = str"
  by (simp add: c_lit_def)

lemma strlen_low_power: "strlen (c_lit LOW_POWER_MAX_FREQ) = Some 6"
  using strlen_c_lit [of LOW_POWER_MAX_FREQ] by (simp add: LOW_POWER_MAX_FREQ_def)

lemma take_low_power: "take 6 (c_lit LOW_POWER_MAX_FREQ) = ''456000''"
  by (simp add: LOW_POWER_MAX_FREQ_def c_lit_def)

lemma store_max_freq_low_power:
  assumes "low_power_mode g"
  shows "\<exists>k1. store_max_freq v (g, k) = Some (g, k1)"
  using assms by (simp add: store_max_freq_eq split: prod.splits)

subsection \<open>Runs without failures\<close>

lemma cstr_read_buf: "length (cstr c) < sz \<Longrightarrow> cstr (read_buf sz c) = cstr c"
proof (induction c arbitrary: sz)
  case Nil
  then show ?case by (cases sz) (simp_all add: cstr_def read_buf_def)
next
  case (Cons x xs)
  then show ?case by (cases sz) (auto simp: cstr_def read_buf_def split: if_splits)
qed

lemma NUL_in_read_buf: "length (cstr c) < sz \<Longrightarrow> NUL \<in> set (read_buf sz c)"
proof (induction c arbitrary: sz)
  case Nil
  then show ?case by (cases sz) (simp_all add: cstr_def read_buf_def)
next
  case (Cons x xs)
  then show ?case by (cases sz) (auto simp: cstr_def read_buf_def split: if_splits)
qed

lemma length_read_buf: "length (read_buf sz c) = sz"
  by (simp add: read_buf_def)

lemma sysfs_write_ok_cstr:
  assumes "NUL \<in> set s" and "faults k = []" and "files k p \<noteq> None"
  shows "sysfs_write p s k =
           Some (0, k\<lparr>trace := trace k @ [Open p O_WRONLY, Write p (cstr s), Close p],
                       files := (files k)(p \<mapsto> cstr s)\<rparr>)"
proof -
  obtain n where n: "strlen s = Some n"
    using assms(1) strlen_Some_iff by blast
  have t: "take n s = cstr s"
    by (rule conjunct1 [OF strlen_cstr [OF n]])
  show ?thesis
    using sysfs_write_ok [OF n assms(2,3)] unfolding t .
qed

lemma store_max_freq_ok:
  assumes "faults k = []" and "files k CPU0_SCALINGMAXFREQ_PATH = Some c"
    and "length (get_var v g) = MAX_BUF_SZ"
  shows "store_max_freq v (g, k) =
           Some (if take 6 (read_buf MAX_BUF_SZ c) \<noteq> ''456000'' \<and> \<not> low_power_mode g
                 then set_var v (read_buf MAX_BUF_SZ c) g else g,
                 k\<lparr>trace := trace k @ [Open CPU0_SCALINGMAXFREQ_PATH O_RDONLY,
                      Read CPU0_SCALINGMAXFREQ_PATH, Close CPU0_SCALINGMAXFREQ_PATH]\<rparr>)"
  using assms
  by (simp add: store_max_freq_eq sysfs_read_ok length_fresh_buf memcpy_def length_read_buf)

lemma cstr_c_lit: "NUL \<notin> set str \<Longrightarrow> cstr (c_lit str) = str"
  by (induction str) (auto simp: cstr_def c_lit_def)

lemma NUL_in_c_lit: "NUL \<in> set (c_lit str)"
  by (simp add: c_lit_def)

lemma NUL_in_screen_off: "NUL \<in> set screen_off_max_freq"
  by (simp add: screen_off_max_freq_def c_array_def MAX_BUF_SZ_def)

lemma set_interactive_off_ok:
  assumes "fault_free k" and "files k CPU0_SCALINGMAXFREQ_PATH = Some c"
    and "length (scaling_max_freq g) = MAX_BUF_SZ"
  shows "p3_power_set_interactive 0 (g, k) =
           Some (if take 6 (read_buf MAX_BUF_SZ c) \<noteq> ''456000'' \<and> \<not> low_power_mode g
                 then g\<lparr>scaling_max_freq := read_buf MAX_BUF_SZ c\<rparr> else g,
                 k\<lparr>trace := trace k @
                      [Open CPU0_SCALINGMAXFREQ_PATH O_RDONLY, Read CPU0_SCALINGMAXFREQ_PATH,
                       Close CPU0_SCALINGMAXFREQ_PATH,
                       Open CPU0_SCALINGMAXFREQ_PATH O_WRONLY,
                       Write CPU0_SCALINGMAXFREQ_PATH ''456000'', Close CPU0_SCALINGMAXFREQ_PATH,
                       Open CPU1_SCALINGMAXFREQ_PATH O_WRONLY,
                       Write CPU1_SCALINGMAXFREQ_PATH ''456000'', Close CPU1_SCALINGMAXFREQ_PATH,
                       Open TOUCH_SUSPEND_PATH O_WRONLY, Write TOUCH_SUSPEND_PATH ''1'',
                       Close TOUCH_SUSPEND_PATH,
                       Open MPU3050_SUSPEND_PATH O_WRONLY, Write MPU3050_SUSPEND_PATH ''1'',
                       Close MPU3050_SUSPEND_PATH],
                     files := (files k)(CPU0_SCALINGMAXFREQ_PATH \<mapsto> ''456000'',
                       CPU1_SCALINGMAXFREQ_PATH \<mapsto> ''456000'', TOUCH_SUSPEND_PATH \<mapsto> ''1'',
                       MPU3050_SUSPEND_PATH \<mapsto> ''1'')\<rparr>)"
  using assms paths_distinct
  by (simp add: p3_power_set_interactive_def fault_free_def store_max_freq_ok
      sysfs_write_ok_cstr NUL_in_screen_off NUL_in_c_lit cstr_screen_off cstr_c_lit)

lemma take_read_buf_screen_off:
  "take 6 (read_buf MAX_BUF_SZ c) = ''456000'' \<longleftrightarrow> take 6 c = ''456000''"
proof (cases "6 \<le> length c")
  case True
  then show ?thesis by (simp add: read_buf_def MAX_BUF_SZ_def)
next
  case False
  then have short: "length c < 6" by simp
  have "take 6 c \<noteq> ''456000''"
  proof
    assume "take 6 c = ''456000''"
    then have "length (take 6 c) = 6" by simp
    then show False using short by simp
  qed
  moreover have "take 6 (read_buf MAX_BUF_SZ c) \<noteq> ''456000''"
  proof
    assume eq: "take 6 (read_buf MAX_BUF_SZ c) = ''456000''"
    have "take 6 (read_buf MAX_BUF_SZ c) ! length c = NUL"
      using short by (simp add: read_buf_def MAX_BUF_SZ_def nth_append)
    moreover have "length c < length (take 6 (read_buf MAX_BUF_SZ c))"
      using short by (simp add: read_buf_def MAX_BUF_SZ_def)
    ultimately have "NUL \<in> set (take 6 (read_buf MAX_BUF_SZ c))"
      by (metis nth_mem)
    then show False
      unfolding eq by simp
  qed
  ultimately show ?thesis by simp
qed

lemma fault_free_after:
  assumes "fault_free k" and "\<forall>p. files k p \<noteq> None \<longrightarrow> fs p \<noteq> None"
  shows "fault_free (k\<lparr>trace := t, files := fs\<rparr>)"
  using assms by (simp add: fault_free_def)

lemma set_interactive_on_ok:
  assumes "fault_free k" and "\<not> low_power_mode g" and "on \<noteq> 0"
    and "NUL \<in> set (scaling_max_freq g)"
  shows "p3_power_set_interactive on (g, k) =
           Some (g,
                 k\<lparr>trace := trace k @
                      [Open CPU0_SCALINGMAXFREQ_PATH O_WRONLY,
                       Write CPU0_SCALINGMAXFREQ_PATH (cstr (scaling_max_freq g)),
                       Close CPU0_SCALINGMAXFREQ_PATH,
                       Open CPU1_SCALINGMAXFREQ_PATH O_WRONLY,
                       Write CPU1_SCALINGMAXFREQ_PATH (cstr (scaling_max_freq g)),
                       Close CPU1_SCALINGMAXFREQ_PATH,
                       Open TOUCH_SUSPEND_PATH O_WRONLY, Write TOUCH_SUSPEND_PATH ''0'',
                       Close TOUCH_SUSPEND_PATH,
                       Open MPU3050_SUSPEND_PATH O_WRONLY, Write MPU3050_SUSPEND_PATH ''0'',
                       Close MPU3050_SUSPEND_PATH],
                     files := (files k)(CPU0_SCALINGMAXFREQ_PATH \<mapsto> cstr (scaling_max_freq g),
                       CPU1_SCALINGMAXFREQ_PATH \<mapsto> cstr (scaling_max_freq g),
                       TOUCH_SUSPEND_PATH \<mapsto> ''0'', MPU3050_SUSPEND_PATH \<mapsto> ''0'')\<rparr>)"
  using assms paths_distinct
  by (simp add: p3_power_set_interactive_def fault_free_def sysfs_write_ok_cstr NUL_in_c_lit
      cstr_c_lit)

lemma hint_enable_ok:
  assumes "fault_free k" and "files k CPU0_SCALINGMAXFREQ_PATH = Some c"
    and "length (normal_max_freq g) = MAX_BUF_SZ" and "data \<noteq> 0"
  shows "p3_power_hint POWER_HINT_LOW_POWER data (g, k) =
           Some ((if take 6 (read_buf MAX_BUF_SZ c) \<noteq> ''456000'' \<and> \<not> low_power_mode g
                  then g\<lparr>normal_max_freq := read_buf MAX_BUF_SZ c\<rparr> else g)
                 \<lparr>low_power_mode := True\<rparr>,
                 k\<lparr>trace := trace k @
                      [Mutex_lock,
                       Open CPU0_SCALINGMAXFREQ_PATH O_RDONLY, Read CPU0_SCALINGMAXFREQ_PATH,
                       Close CPU0_SCALINGMAXFREQ_PATH,
                       Open CPU0_SCALINGMAXFREQ_PATH O_WRONLY,
                       Write CPU0_SCALINGMAXFREQ_PATH ''456000'', Close CPU0_SCALINGMAXFREQ_PATH,
                       Open CPU1_SCALINGMAXFREQ_PATH O_WRONLY,
                       Write CPU1_SCALINGMAXFREQ_PATH ''456000'', Close CPU1_SCALINGMAXFREQ_PATH,
                       Mutex_unlock],
                     files := (files k)(CPU0_SCALINGMAXFREQ_PATH \<mapsto> ''456000'',
                       CPU1_SCALINGMAXFREQ_PATH \<mapsto> ''456000'')\<rparr>)"
  using assms paths_distinct
  by (simp add: p3_power_hint_def fault_free_def emit_def store_max_freq_ok
      sysfs_write_ok_cstr NUL_in_c_lit cstr_c_lit LOW_POWER_MAX_FREQ_def)

lemma hint_disable_ok:
  assumes "fault_free k" and "NUL \<in> set (normal_max_freq g)"
  shows "p3_power_hint POWER_HINT_LOW_POWER 0 (g, k) =
           Some (g\<lparr>low_power_mode := False\<rparr>,
                 k\<lparr>trace := trace k @
                      [Mutex_lock,
                       Open CPU0_SCALINGMAXFREQ_PATH O_WRONLY,
                       Write CPU0_SCALINGMAXFREQ_PATH (cstr (normal_max_freq g)),
                       Close CPU0_SCALINGMAXFREQ_PATH,
                       Open CPU1_SCALINGMAXFREQ_PATH O_WRONLY,
                       Write CPU1_SCALINGMAXFREQ_PATH (cstr (normal_max_freq g)),
                       Close CPU1_SCALINGMAXFREQ_PATH,
                       Mutex_unlock],
                     files := (files k)(CPU0_SCALINGMAXFREQ_PATH \<mapsto> cstr (normal_max_freq g),
                       CPU1_SCALINGMAXFREQ_PATH \<mapsto> cstr (normal_max_freq g))\<rparr>)"
  using assms paths_distinct
  by (simp add: p3_power_hint_def fault_free_def emit_def sysfs_write_ok_cstr)

lemma fault_free_sample_os: "fault_free (sample_os f [])"
  by (simp add: fault_free_def sample_os_simps)

subsection \<open>Runs under arbitrary failures\<close>

lemma read_retry_bytes:
  "read_retry fd sz k = (Inr bytes, k') \<Longrightarrow> \<exists>c. files k fd = Some c \<and> bytes = take sz c"
proof (induction fd sz k rule: read_retry.induct)
  case (1 fd sz k)
  show ?case
  proof (cases "sys_read fd sz k")
    case (Pair r k1)
    have files: "files k1 = files k"
      using Pair by (auto simp: sys_read_def next_fault_def emit_def split: list.splits option.splits)
    show ?thesis
    proof (cases "r = Inl EINTR")
      case True
      have "read_retry fd sz k1 = (Inr bytes, k')"
        using "1.prems" Pair True by (subst (asm) read_retry.simps) simp
      then show ?thesis
        using "1.IH" [OF Pair [symmetric] True refl] files by simp
    next
      case False
      have "r = Inr bytes"
        using "1.prems" Pair False by (subst (asm) read_retry.simps) (auto split: sum.splits if_splits)
      then show ?thesis
        using Pair by (auto simp: sys_read_def next_fault_def emit_def split: list.splits option.splits)
    qed
  qed
qed

lemma sysfs_read_success:
  assumes "sysfs_read p buf sz k = ((len, buf'), k')" and "len \<noteq> - 1"
  shows "\<exists>c. files k p = Some c \<and> len = int (min sz (length c)) \<and>
              buf' = read_buf sz c @ drop sz buf"
proof (cases "sys_open p O_RDONLY k")
  case (Pair r k1)
  have k1: "files k1 = files k"
    using Pair by (auto simp: sys_open_def next_fault_def emit_def split: list.splits option.splits)
  show ?thesis
  proof (cases r)
    case (Inl e)
    then show ?thesis
      using assms Pair by (simp add: sysfs_read_def)
  next
    case (Inr fd)
    then have fd: "fd = p"
      using Pair by (auto simp: sys_open_def next_fault_def emit_def split: list.splits option.splits)
    show ?thesis
    proof (cases "read_retry p sz k1")
      case rr: (Pair r2 k2)
      show ?thesis
      proof (cases r2)
        case (Inl e)
        then show ?thesis
          using assms Pair Inr fd rr by (simp add: sysfs_read_def)
      next
        case r2: (Inr bytes)
        then obtain c where c: "files k p = Some c" "bytes = take sz c"
          using read_retry_bytes [of p sz k1 bytes k2] rr k1 by auto
        show ?thesis
          using assms Pair Inr fd rr r2 c
          by (auto simp: sysfs_read_def Let_def memset_def read_buf_def min_def)
      qed
    qed
  qed
qed

lemma sysfs_read_faults:
  assumes "faults k = []"
  shows "faults (snd (sysfs_read p buf sz k)) = []"
proof (cases "files k p")
  case None
  then show ?thesis
    using assms by (simp add: sysfs_read_def sys_open_def next_fault_def emit_def)
next
  case (Some c)
  then show ?thesis
    using assms by (simp add: sysfs_read_ok)
qed

lemma store_max_freq_summary:
  "\<exists>g' k' t. store_max_freq v (g, k) = Some (g', k') \<and> trace k' = trace k @ t \<and>
     opened t = [(CPU0_SCALINGMAXFREQ_PATH, O_RDONLY)] \<and> written t = [] \<and>
     files k' = files k \<and> (faults k = [] \<longrightarrow> faults k' = []) \<and>
     (g' = g \<or>
      (\<not> low_power_mode g \<and>
       (\<exists>c. files k CPU0_SCALINGMAXFREQ_PATH = Some c \<and>
            take 6 (read_buf MAX_BUF_SZ c) \<noteq> ''456000'' \<and>
            g' = set_var v (memcpy (get_var v g) (read_buf MAX_BUF_SZ c) MAX_BUF_SZ) g)))"
proof (cases "sysfs_read CPU0_SCALINGMAXFREQ_PATH (fresh_buf k) MAX_BUF_SZ k")
  case (Pair r k1)
  obtain len buf where r: "r = (len, buf)"
    by (cases r)
  obtain t where t: "trace k1 = trace k @ t" "opened t = [(CPU0_SCALINGMAXFREQ_PATH, O_RDONLY)]"
    "written t = []" "files k1 = files k"
    using sysfs_read_summary [of CPU0_SCALINGMAXFREQ_PATH "fresh_buf k" MAX_BUF_SZ k] Pair
    by auto
  have fl: "faults k = [] \<longrightarrow> faults k1 = []"
    using sysfs_read_faults [of k CPU0_SCALINGMAXFREQ_PATH "fresh_buf k" MAX_BUF_SZ] Pair
    by simp
  have "len \<noteq> - 1 \<longrightarrow>
          (\<exists>c. files k CPU0_SCALINGMAXFREQ_PATH = Some c \<and> buf = read_buf MAX_BUF_SZ c)"
    using sysfs_read_success [of CPU0_SCALINGMAXFREQ_PATH "fresh_buf k" MAX_BUF_SZ k len buf k1]
      Pair r by (auto simp: length_fresh_buf)
  then show ?thesis
    using Pair r t fl by (auto simp: store_max_freq_eq)
qed

lemma sysfs_write_faults:
  assumes "strlen s = Some n" and "sysfs_write p s k = Some (r, k')"
    and "faults k = []" and "files k p \<noteq> None"
  shows "faults k' = [] \<and> (\<exists>t. trace k' = trace k @ t \<and> written t = [(p, take n s)])"
  using assms by (simp add: sysfs_write_ok) auto

subsection \<open>Where scaling\_max\_freq changes\<close>

lemma cstr_take: "cstr s = x \<Longrightarrow> take (length x) s = x"
  by (auto simp: cstr_def takeWhile_eq_take [symmetric])

lemma hint_scaling:
  assumes "p3_power_hint hint data (g, k) = Some (g', k')"
  shows "scaling_max_freq g' = scaling_max_freq g"
proof (cases "hint = POWER_HINT_LOW_POWER")
  case False
  then show ?thesis
    using assms by (cases hint) (auto simp: p3_power_hint_def)
next
  case True
  obtain g1 k1 where s: "store_max_freq Normal_max_freq (g, emit Mutex_lock k) = Some (g1, k1)"
    and g1: "scaling_max_freq g1 = scaling_max_freq g"
    using store_max_freq_summary [of Normal_max_freq g "emit Mutex_lock k"] by auto
  show ?thesis
    using assms True s g1
    by (auto simp: p3_power_hint_def Let_def bind_eq_Some_conv split: if_splits)
qed

lemma set_interactive_on_scaling:
  assumes "p3_power_set_interactive on (g, k) = Some (g', k')" and "on \<noteq> 0"
  shows "g' = g"
proof (cases "low_power_mode g")
  case True
  obtain k1 where "store_max_freq Scaling_max_freq (g, k) = Some (g, k1)"
    using store_max_freq_low_power [OF True] by blast
  then show ?thesis
    using assms True by (auto simp: p3_power_set_interactive_def bind_eq_Some_conv)
next
  case False
  then show ?thesis
    using assms by (auto simp: p3_power_set_interactive_def bind_eq_Some_conv)
qed

lemma entry_scaling_change:
  assumes "entry c (g, k) = Some (g', k')"
  shows "scaling_max_freq g' = scaling_max_freq g \<or>
         (\<not> low_power_mode g \<and> (c = Init \<or> c = SetInteractive 0) \<and>
          (\<exists>cont. files k CPU0_SCALINGMAXFREQ_PATH = Some cont \<and>
             take 6 (read_buf MAX_BUF_SZ cont) \<noteq> ''456000'' \<and>
             scaling_max_freq g' =
               memcpy (scaling_max_freq g) (read_buf MAX_BUF_SZ cont) MAX_BUF_SZ))"
proof -
  obtain g1 k1 where s: "store_max_freq Scaling_max_freq (g, k) = Some (g1, k1)"
    and g1: "g1 = g \<or>
      (\<not> low_power_mode g \<and>
       (\<exists>cont. files k CPU0_SCALINGMAXFREQ_PATH = Some cont \<and>
          take 6 (read_buf MAX_BUF_SZ cont) \<noteq> ''456000'' \<and>
          g1 = set_var Scaling_max_freq
                 (memcpy (get_var Scaling_max_freq g) (read_buf MAX_BUF_SZ cont) MAX_BUF_SZ) g))"
    using store_max_freq_summary [of Scaling_max_freq g k] by blast
  show ?thesis
  proof (cases c)
    case Init
    then have "g' = g1"
      using assms s by (auto simp: p3_power_init_def bind_eq_Some_conv)
    then show ?thesis
      using g1 Init by auto
  next
    case (SetInteractive on)
    show ?thesis
    proof (cases "on = 0")
      case True
      then have "g' = g1"
        using assms s SetInteractive
        by (auto simp: p3_power_set_interactive_def bind_eq_Some_conv)
      then show ?thesis
        using g1 SetInteractive True by auto
    next
      case False
      have "g' = g"
        using assms SetInteractive False set_interactive_on_scaling [of on g k g' k'] by simp
      then show ?thesis
        by simp
    qed
  next
    case (PowerHint hint data)
    then show ?thesis
      using assms hint_scaling by auto
  qed
qed

subsection \<open>Runs of the host\<close>

lemma run_snoc:
  "run (cs @ [(c, k)]) g =
     (case run cs g of None \<Rightarrow> None | Some g1 \<Rightarrow> map_option fst (entry c (g1, k)))"
proof (induction cs arbitrary: g)
  case Nil
  show ?case by (auto split: option.splits)
next
  case (Cons a cs)
  obtain c0 k0 where a: "a = (c0, k0)" by (cases a)
  show ?case
    using Cons.IH by (auto simp: a split: option.splits)
qed

lemma init_ok:
  assumes "fault_free k" and "files k CPU0_SCALINGMAXFREQ_PATH = Some c"
    and "length (scaling_max_freq g) = MAX_BUF_SZ" and "NUL \<in> set (scaling_max_freq g)"
    and "length (cstr c) < MAX_BUF_SZ"
  shows "\<exists>k'. p3_power_init (g, k) =
           Some (if take 6 (read_buf MAX_BUF_SZ c) \<noteq> ''456000'' \<and> \<not> low_power_mode g
                 then g\<lparr>scaling_max_freq := read_buf MAX_BUF_SZ c\<rparr> else g, k')"
proof -
  define g1 where "g1 =
    (if take 6 (read_buf MAX_BUF_SZ c) \<noteq> ''456000'' \<and> \<not> low_power_mode g
     then g\<lparr>scaling_max_freq := read_buf MAX_BUF_SZ c\<rparr> else g)"
  have "NUL \<in> set (scaling_max_freq g1)"
    using assms(4,5) NUL_in_read_buf by (simp add: g1_def)
  then obtain n where n: "strlen (scaling_max_freq g1) = Some n"
    using strlen_Some_iff by blast
  have "\<exists>k1. store_max_freq Scaling_max_freq (g, k) = Some (g1, k1)"
    using assms(1,2,3) by (simp add: store_max_freq_ok fault_free_def g1_def)
  then show ?thesis
    using n unfolding g1_def [symmetric] by (auto simp: p3_power_init_def)
qed

lemma set_interactive_off_ok_any:
  assumes "fault_free k" and "files k CPU0_SCALINGMAXFREQ_PATH = Some c"
  shows "p3_power_set_interactive 0 (g, k) =
           Some (if take 6 (read_buf MAX_BUF_SZ c) \<noteq> ''456000'' \<and> \<not> low_power_mode g
                 then g\<lparr>scaling_max_freq :=
                        memcpy (scaling_max_freq g) (read_buf MAX_BUF_SZ c) MAX_BUF_SZ\<rparr>
                 else g,
                 k\<lparr>trace := trace k @
                      [Open CPU0_SCALINGMAXFREQ_PATH O_RDONLY, Read CPU0_SCALINGMAXFREQ_PATH,
                       Close CPU0_SCALINGMAXFREQ_PATH,
                       Open CPU0_SCALINGMAXFREQ_PATH O_WRONLY,
                       Write CPU0_SCALINGMAXFREQ_PATH ''456000'', Close CPU0_SCALINGMAXFREQ_PATH,
                       Open CPU1_SCALINGMAXFREQ_PATH O_WRONLY,
                       Write CPU1_SCALINGMAXFREQ_PATH ''456000'', Close CPU1_SCALINGMAXFREQ_PATH,
                       Open TOUCH_SUSPEND_PATH O_WRONLY, Write TOUCH_SUSPEND_PATH ''1'',
                       Close TOUCH_SUSPEND_PATH,
                       Open MPU3050_SUSPEND_PATH O_WRONLY, Write MPU3050_SUSPEND_PATH ''1'',
                       Close MPU3050_SUSPEND_PATH],
                     files := (files k)(CPU0_SCALINGMAXFREQ_PATH \<mapsto> ''456000'',
                       CPU1_SCALINGMAXFREQ_PATH \<mapsto> ''456000'', TOUCH_SUSPEND_PATH \<mapsto> ''1'',
                       MPU3050_SUSPEND_PATH \<mapsto> ''1'')\<rparr>)"
  using assms paths_distinct
  by (simp add: p3_power_set_interactive_def fault_free_def store_max_freq_eq sysfs_read_ok
      length_fresh_buf sysfs_write_ok_cstr NUL_in_screen_off NUL_in_c_lit cstr_screen_off
      cstr_c_lit)

subsection \<open>The system calls of an access\<close>

lemma io_append: "io (a @ b) = io a @ io b"
  by (simp add: io_def)

lemma read_retry_io:
  "\<exists>r k' t. read_retry fd sz k = (r, k') \<and> trace k' = trace k @ t \<and>
     io t = replicate (Suc (interrupts (faults k))) (Read fd) \<and>
     faults k' = drop (Suc (interrupts (faults k))) (faults k) \<and> files k' = files k"
proof (induction fd sz k rule: read_retry.induct)
  case (1 fd sz k)
  show ?case
  proof (cases "sys_read fd sz k")
    case (Pair r k1)
    have k1: "trace k1 = trace k @ [Read fd]" "files k1 = files k" "faults k1 = drop 1 (faults k)"
      using Pair by (auto simp: sys_read_def next_fault_def emit_def split: list.splits option.splits)
    show ?thesis
    proof (cases "r = Inl EINTR")
      case True
      then obtain fs where fs: "faults k = Some EINTR # fs"
        using Pair by (auto simp: sys_read_def next_fault_def emit_def split: list.splits option.splits)
      from 1 [OF Pair [symmetric] True refl]
      obtain r' k' t where rr: "read_retry fd sz k1 = (r', k')" "trace k' = trace k1 @ t"
        "io t = replicate (Suc (interrupts (faults k1))) (Read fd)"
        "faults k' = drop (Suc (interrupts (faults k1))) (faults k1)" "files k' = files k1"
        by blast
      have "read_retry fd sz k = (r', k')"
        using Pair True rr(1) by (subst read_retry.simps) simp
      moreover have "trace k' = trace k @ (Read fd # t)"
        using rr(2) k1 by simp
      moreover have "io (Read fd # t) = replicate (Suc (interrupts (faults k))) (Read fd)"
        using rr(3) k1 fs by (simp add: io_def interrupts_def)
      moreover have "faults k' = drop (Suc (interrupts (faults k))) (faults k)"
        using rr(4) k1 fs by (simp add: interrupts_def)
      moreover have "files k' = files k"
        using rr(5) k1 by simp
      ultimately show ?thesis
        by blast
    next
      case False
      have nint: "interrupts (faults k) = 0"
        using Pair False
        by (auto simp: sys_read_def next_fault_def emit_def interrupts_def
            split: list.splits option.splits)
      have "read_retry fd sz k = (r, k1)"
        using Pair False by (subst read_retry.simps) (auto split: sum.splits)
      moreover have "io [Read fd] = replicate (Suc (interrupts (faults k))) (Read fd)"
        by (simp add: nint io_def)
      moreover have "faults k1 = drop (Suc (interrupts (faults k))) (faults k)"
        using k1 nint by simp
      moreover note k1(1,2)
      ultimately show ?thesis
        by blast
    qed
  qed
qed

lemma refused_iff: "refused script \<longleftrightarrow> (\<exists>e rest. script = Some e # rest)"
  by (cases script rule: refused.cases) auto

lemma sysfs_read_io:
  "\<exists>r k' t. sysfs_read p buf sz k = (r, k') \<and> trace k' = trace k @ t \<and>
     attempt (present k) (Reads p) (faults k) = (io t, faults k') \<and>
     files k' = files k"
proof (cases "sys_open p O_RDONLY k")
  case (Pair r k1)
  have k1: "trace k1 = trace k @ [Open p O_RDONLY]" "files k1 = files k"
    "faults k1 = drop 1 (faults k)"
    using Pair by (auto simp: sys_open_def next_fault_def emit_def split: list.splits option.splits)
  show ?thesis
  proof (cases r)
    case (Inl e)
    then have "refused (faults k) \<or> \<not> present k p"
      using Pair
      by (auto simp: sys_open_def next_fault_def emit_def present_def refused_iff
          split: list.splits option.splits)
    then show ?thesis
      using Pair Inl k1 by (auto simp: sysfs_read_def io_def)
  next
    case (Inr fd)
    then have ok: "\<not> refused (faults k)" "present k p" "fd = p"
      using Pair
      by (auto simp: sys_open_def next_fault_def emit_def present_def refused_iff
          split: list.splits option.splits)
    obtain r2 k2 t2 where rr: "read_retry p sz k1 = (r2, k2)" "trace k2 = trace k1 @ t2"
      "io t2 = replicate (Suc (interrupts (faults k1))) (Read p)"
      "faults k2 = drop (Suc (interrupts (faults k1))) (faults k1)" "files k2 = files k1"
      using read_retry_io [of p sz k1] by blast
    have res: "\<exists>r. sysfs_read p buf sz k = (r, sys_close p k2)"
      using Pair Inr ok(3) rr(1) by (auto simp: sysfs_read_def Let_def split: sum.splits)
    have "trace (sys_close p k2) = trace k @ (Open p O_RDONLY # t2 @ [Close p])"
      using rr(2) k1 by (simp add: sys_close_def emit_def)
    moreover have "io (Open p O_RDONLY # t2 @ [Close p]) =
        Open p O_RDONLY # replicate (Suc (interrupts (drop 1 (faults k)))) (Read p) @ [Close p]"
      using rr(3) k1 by (simp add: io_def)
    moreover have "faults (sys_close p k2) =
        drop (Suc (Suc (interrupts (drop 1 (faults k))))) (faults k)"
      using rr(4) k1 by (simp add: sys_close_def emit_def)
    moreover have "files (sys_close p k2) = files k"
      using rr(5) k1 by (simp add: sys_close_def emit_def)
    ultimately show ?thesis
      using res ok by auto
  qed
qed

lemma sysfs_write_io:
  assumes "NUL \<in> set s"
  shows "\<exists>r k' t. sysfs_write p s k = Some (r, k') \<and> trace k' = trace k @ t \<and>
     attempt (present k) (Writes p (cstr s)) (faults k) = (io t, faults k') \<and>
     present k' = present k"
proof -
  obtain n where n: "strlen s = Some n"
    using assms strlen_Some_iff by blast
  have t: "take n s = cstr s"
    by (rule conjunct1 [OF strlen_cstr [OF n]])
  show ?thesis
    using n t
    by (auto simp: sysfs_write_def sys_open_def sys_write_def sys_close_def next_fault_def
        emit_def io_def fun_eq_iff drop_Suc present_def refused_iff
        split: list.splits option.splits)
qed

lemma store_max_freq_io:
  "\<exists>g' k' t. store_max_freq v (g, k) = Some (g', k') \<and> trace k' = trace k @ t \<and>
     attempt (present k) (Reads CPU0_SCALINGMAXFREQ_PATH) (faults k) = (io t, faults k') \<and>
     present k' = present k \<and> low_power_mode g' = low_power_mode g"
proof (cases "sysfs_read CPU0_SCALINGMAXFREQ_PATH (fresh_buf k) MAX_BUF_SZ k")
  case (Pair r k1)
  obtain t where t: "trace k1 = trace k @ t"
    "attempt (present k) (Reads CPU0_SCALINGMAXFREQ_PATH) (faults k) = (io t, faults k1)"
    "files k1 = files k"
    using sysfs_read_io [of CPU0_SCALINGMAXFREQ_PATH "fresh_buf k" MAX_BUF_SZ k] Pair by auto
  have pr: "present k1 = present k"
    using t(3) by (simp add: present_def fun_eq_iff)
  obtain len buf where r: "r = (len, buf)"
    by (cases r)
  have "\<exists>g'. store_max_freq v (g, k) = Some (g', k1) \<and> low_power_mode g' = low_power_mode g"
    using Pair r by (cases v) (simp_all add: store_max_freq_eq)
  then show ?thesis
    using t(1,2) pr by blast
qed

lemma attempts_append:
  assumes "attempts th as script = (t1, s1)" and "attempts th bs s1 = (t2, s2)"
  shows "attempts th (as @ bs) script = (t1 @ t2, s2)"
  using assms
proof (induction as arbitrary: script t1)
  case Nil
  then show ?case by simp
next
  case (Cons a as)
  obtain ta sa where a: "attempt th a script = (ta, sa)"
    by (cases "attempt th a script")
  obtain tb sb where b: "attempts th as sa = (tb, sb)"
    by (cases "attempts th as sa")
  have eq: "t1 = ta @ tb" "s1 = sb"
    using Cons.prems(1) a b by simp_all
  have b': "attempts th as sa = (tb, s1)"
    using b eq by simp
  show ?case
    using Cons.IH [OF b' Cons.prems(2)] a eq by simp
qed

lemma attempts_single: "attempt th a script = (t, rest) \<Longrightarrow> attempts th [a] script = (t, rest)"
  by simp

lemma write_pair_io:
  assumes "NUL \<in> set s"
  shows "\<exists>r1 k1 r2 k2 t.
           sysfs_write p1 s k = Some (r1, k1) \<and> sysfs_write p2 s k1 = Some (r2, k2) \<and>
           trace k2 = trace k @ t \<and>
           attempts (present k) [Writes p1 (cstr s), Writes p2 (cstr s)] (faults k) =
             (io t, faults k2) \<and>
           present k2 = present k"
proof -
  obtain r1 k1 t1 where 1: "sysfs_write p1 s k = Some (r1, k1)" "trace k1 = trace k @ t1"
    "attempt (present k) (Writes p1 (cstr s)) (faults k) = (io t1, faults k1)"
    "present k1 = present k"
    using sysfs_write_io [OF assms] by blast
  obtain r2 k2 t2 where 2: "sysfs_write p2 s k1 = Some (r2, k2)" "trace k2 = trace k1 @ t2"
    "attempt (present k1) (Writes p2 (cstr s)) (faults k1) = (io t2, faults k2)"
    "present k2 = present k1"
    using sysfs_write_io [OF assms] by blast
  have "trace k2 = trace k @ (t1 @ t2)"
    using 1(2) 2(2) by simp
  moreover have "attempts (present k) [Writes p1 (cstr s), Writes p2 (cstr s)] (faults k) =
      (io (t1 @ t2), faults k2)"
    using 1(3) 2(3) 1(4) by (simp add: io_append)
  moreover have "present k2 = present k"
    using 1(4) 2(4) by simp
  ultimately show ?thesis
    using 1(1) 2(1) by blast
qed

lemma cstr_low_power: "cstr (c_lit LOW_POWER_MAX_FREQ) = LOW_POWER_MAX_FREQ"
  by (rule cstr_c_lit) (simp add: LOW_POWER_MAX_FREQ_def)

lemma cstr_one: "cstr (c_lit ''1'') = ''1''" "cstr (c_lit ''0'') = ''0''"
  by (simp_all add: cstr_c_lit)

lemma init_io:
  assumes "NUL \<in> set (scaling_max_freq g)"
    and "\<forall>cont. files k CPU0_SCALINGMAXFREQ_PATH = Some cont \<longrightarrow> length (cstr cont) < MAX_BUF_SZ"
  shows "\<exists>g' k' t. p3_power_init (g, k) = Some (g', k') \<and> trace k' = trace k @ t \<and>
           attempts (present k) (plan Init g) (faults k) = (io t, faults k') \<and>
           low_power_mode g' = flag_after Init g"
proof -
  obtain g1 k1 t1 where s: "store_max_freq Scaling_max_freq (g, k) = Some (g1, k1)"
    and t1: "trace k1 = trace k @ t1"
      "attempt (present k) (Reads CPU0_SCALINGMAXFREQ_PATH) (faults k) = (io t1, faults k1)"
      "low_power_mode g1 = low_power_mode g"
    using store_max_freq_io [of Scaling_max_freq g k] by blast
  have g1: "g1 = g \<or> (\<exists>c. files k CPU0_SCALINGMAXFREQ_PATH = Some c \<and>
        g1 = set_var Scaling_max_freq
               (memcpy (get_var Scaling_max_freq g) (read_buf MAX_BUF_SZ c) MAX_BUF_SZ) g)"
    using store_max_freq_summary [of Scaling_max_freq g k] s by auto
  have "NUL \<in> set (scaling_max_freq g1)"
    using g1 assms NUL_in_read_buf by (auto simp: memcpy_def length_read_buf)
  then obtain n where n: "strlen (scaling_max_freq g1) = Some n"
    using strlen_Some_iff by blast
  have "p3_power_init (g, k) =
          Some (g1, emit (ALOGI_stored (take n (scaling_max_freq g1))) k1)"
    using s n by (simp add: p3_power_init_def)
  moreover have "trace (emit (ALOGI_stored (take n (scaling_max_freq g1))) k1) =
      trace k @ (t1 @ [ALOGI_stored (take n (scaling_max_freq g1))])"
    using t1 by (simp add: emit_def)
  moreover have "attempts (present k) (plan Init g) (faults k) =
      (io (t1 @ [ALOGI_stored (take n (scaling_max_freq g1))]),
       faults (emit (ALOGI_stored (take n (scaling_max_freq g1))) k1))"
    using t1(2) by (simp add: io_def emit_def)
  moreover have "low_power_mode g1 = flag_after Init g"
    using t1(3) by simp
  ultimately show ?thesis
    by blast
qed

lemma set_interactive_io:
  assumes "NUL \<in> set (scaling_max_freq g)"
  shows "\<exists>g' k' t. p3_power_set_interactive on (g, k) = Some (g', k') \<and>
           trace k' = trace k @ t \<and>
           attempts (present k) (plan (SetInteractive on) g) (faults k) = (io t, faults k') \<and>
           low_power_mode g' = flag_after (SetInteractive on) g"
proof -
  consider (off) "on = 0" | (low) "on \<noteq> 0" "low_power_mode g"
    | (normal) "on \<noteq> 0" "\<not> low_power_mode g"
    by blast
  then show ?thesis
  proof cases
    case off
    obtain g1 k0 t0 where s: "store_max_freq Scaling_max_freq (g, k) = Some (g1, k0)"
      "trace k0 = trace k @ t0"
      "attempt (present k) (Reads CPU0_SCALINGMAXFREQ_PATH) (faults k) = (io t0, faults k0)"
      "present k0 = present k" "low_power_mode g1 = low_power_mode g"
      using store_max_freq_io by blast
    obtain r1 k1 r2 k2 ta where a:
      "sysfs_write CPU0_SCALINGMAXFREQ_PATH screen_off_max_freq k0 = Some (r1, k1)"
      "sysfs_write CPU1_SCALINGMAXFREQ_PATH screen_off_max_freq k1 = Some (r2, k2)"
      "trace k2 = trace k0 @ ta"
      "attempts (present k0) [Writes CPU0_SCALINGMAXFREQ_PATH (cstr screen_off_max_freq),
          Writes CPU1_SCALINGMAXFREQ_PATH (cstr screen_off_max_freq)] (faults k0) =
         (io ta, faults k2)"
      "present k2 = present k0"
      using write_pair_io [OF NUL_in_screen_off] by blast
    obtain r3 k3 r4 k4 tb where b:
      "sysfs_write TOUCH_SUSPEND_PATH (c_lit ''1'') k2 = Some (r3, k3)"
      "sysfs_write MPU3050_SUSPEND_PATH (c_lit ''1'') k3 = Some (r4, k4)"
      "trace k4 = trace k2 @ tb"
      "attempts (present k2) [Writes TOUCH_SUSPEND_PATH (cstr (c_lit ''1'')),
          Writes MPU3050_SUSPEND_PATH (cstr (c_lit ''1''))] (faults k2) = (io tb, faults k4)"
      using write_pair_io [OF NUL_in_c_lit] by blast
    have "p3_power_set_interactive on (g, k) = Some (g1, k4)"
      using off s(1) a(1,2) b(1,2) by (simp add: p3_power_set_interactive_def)
    moreover have "trace k4 = trace k @ (t0 @ ta @ tb)"
      using s a b by simp
    moreover have "attempts (present k) (plan (SetInteractive on) g) (faults k) =
        (io (t0 @ ta @ tb), faults k4)"
      using attempts_append [OF attempts_single [OF s(3)]
          attempts_append [OF a(4) [unfolded s(4)] b(4) [unfolded a(5) s(4)]]] off
      by (simp add: io_append cstr_screen_off cstr_one)
    moreover have "low_power_mode g1 = flag_after (SetInteractive on) g"
      using s(5) by simp
    ultimately show ?thesis
      by blast
  next
    case low
    obtain g1 k0 t0 where s: "store_max_freq Scaling_max_freq (g, k) = Some (g1, k0)"
      "trace k0 = trace k @ t0"
      "attempt (present k) (Reads CPU0_SCALINGMAXFREQ_PATH) (faults k) = (io t0, faults k0)"
      "present k0 = present k" "low_power_mode g1 = low_power_mode g"
      using store_max_freq_io by blast
    obtain r1 k1 r2 k2 ta where a:
      "sysfs_write CPU0_SCALINGMAXFREQ_PATH (c_lit LOW_POWER_MAX_FREQ) k0 = Some (r1, k1)"
      "sysfs_write CPU1_SCALINGMAXFREQ_PATH (c_lit LOW_POWER_MAX_FREQ) k1 = Some (r2, k2)"
      "trace k2 = trace k0 @ ta"
      "attempts (present k0) [Writes CPU0_SCALINGMAXFREQ_PATH (cstr (c_lit LOW_POWER_MAX_FREQ)),
          Writes CPU1_SCALINGMAXFREQ_PATH (cstr (c_lit LOW_POWER_MAX_FREQ))] (faults k0) =
         (io ta, faults k2)"
      using write_pair_io [OF NUL_in_c_lit] by blast
    have "p3_power_set_interactive on (g, k) = Some (g1, k2)"
      using low s(1) a(1,2) by (simp add: p3_power_set_interactive_def)
    moreover have "trace k2 = trace k @ (t0 @ ta)"
      using s a by simp
    moreover have "attempts (present k) (plan (SetInteractive on) g) (faults k) =
        (io (t0 @ ta), faults k2)"
      using attempts_append [OF attempts_single [OF s(3)] a(4) [unfolded s(4)]] low
      by (simp add: io_append cstr_low_power)
    moreover have "low_power_mode g1 = flag_after (SetInteractive on) g"
      using s(5) by simp
    ultimately show ?thesis
      by blast
  next
    case normal
    obtain r1 k1 r2 k2 ta where a:
      "sysfs_write CPU0_SCALINGMAXFREQ_PATH (scaling_max_freq g) k = Some (r1, k1)"
      "sysfs_write CPU1_SCALINGMAXFREQ_PATH (scaling_max_freq g) k1 = Some (r2, k2)"
      "trace k2 = trace k @ ta"
      "attempts (present k) [Writes CPU0_SCALINGMAXFREQ_PATH (cstr (scaling_max_freq g)),
          Writes CPU1_SCALINGMAXFREQ_PATH (cstr (scaling_max_freq g))] (faults k) =
         (io ta, faults k2)"
      "present k2 = present k"
      using write_pair_io [OF assms] by blast
    obtain r3 k3 r4 k4 tb where b:
      "sysfs_write TOUCH_SUSPEND_PATH (c_lit ''0'') k2 = Some (r3, k3)"
      "sysfs_write MPU3050_SUSPEND_PATH (c_lit ''0'') k3 = Some (r4, k4)"
      "trace k4 = trace k2 @ tb"
      "attempts (present k2) [Writes TOUCH_SUSPEND_PATH (cstr (c_lit ''0'')),
          Writes MPU3050_SUSPEND_PATH (cstr (c_lit ''0''))] (faults k2) = (io tb, faults k4)"
      using write_pair_io [OF NUL_in_c_lit] by blast
    have "p3_power_set_interactive on (g, k) = Some (g, k4)"
      using normal a(1,2) b(1,2) by (simp add: p3_power_set_interactive_def)
    moreover have "trace k4 = trace k @ (ta @ tb)"
      using a b by simp
    moreover have "attempts (present k) (plan (SetInteractive on) g) (faults k) =
        (io (ta @ tb), faults k4)"
      using attempts_append [OF a(4) b(4) [unfolded a(5)]] normal
      by (simp add: io_append cstr_one)
    moreover have "low_power_mode g = flag_after (SetInteractive on) g"
      by simp
    ultimately show ?thesis
      by blast
  qed
qed

lemma hint_io:
  assumes "NUL \<in> set (normal_max_freq g)"
  shows "\<exists>g' k' t. p3_power_hint hint data (g, k) = Some (g', k') \<and>
           trace k' = trace k @ t \<and>
           attempts (present k) (plan (PowerHint hint data) g) (faults k) = (io t, faults k') \<and>
           low_power_mode g' = flag_after (PowerHint hint data) g"
proof -
  have lock: "present (emit Mutex_lock k) = present k" "faults (emit Mutex_lock k) = faults k"
    "trace (emit Mutex_lock k) = trace k @ [Mutex_lock]"
    by (simp_all add: emit_def present_def fun_eq_iff)
  consider (enable) "hint = POWER_HINT_LOW_POWER" "data \<noteq> 0"
    | (disable) "hint = POWER_HINT_LOW_POWER" "data = 0"
    | (other) "hint \<noteq> POWER_HINT_LOW_POWER"
    by blast
  then show ?thesis
  proof cases
    case enable
    obtain g1 k0 t0 where s:
      "store_max_freq Normal_max_freq (g, emit Mutex_lock k) = Some (g1, k0)"
      "trace k0 = trace (emit Mutex_lock k) @ t0"
      "attempt (present (emit Mutex_lock k)) (Reads CPU0_SCALINGMAXFREQ_PATH)
         (faults (emit Mutex_lock k)) = (io t0, faults k0)"
      "present k0 = present (emit Mutex_lock k)"
      using store_max_freq_io by blast
    obtain r1 k1 r2 k2 ta where a:
      "sysfs_write CPU0_SCALINGMAXFREQ_PATH (c_lit LOW_POWER_MAX_FREQ) k0 = Some (r1, k1)"
      "sysfs_write CPU1_SCALINGMAXFREQ_PATH (c_lit LOW_POWER_MAX_FREQ) k1 = Some (r2, k2)"
      "trace k2 = trace k0 @ ta"
      "attempts (present k0) [Writes CPU0_SCALINGMAXFREQ_PATH (cstr (c_lit LOW_POWER_MAX_FREQ)),
          Writes CPU1_SCALINGMAXFREQ_PATH (cstr (c_lit LOW_POWER_MAX_FREQ))] (faults k0) =
         (io ta, faults k2)"
      using write_pair_io [OF NUL_in_c_lit] by blast
    have "p3_power_hint hint data (g, k) =
            Some (g1\<lparr>low_power_mode := True\<rparr>, emit Mutex_unlock k2)"
      using enable s(1) a(1,2) by (simp add: p3_power_hint_def)
    moreover have "trace (emit Mutex_unlock k2) = trace k @ (Mutex_lock # t0 @ ta @ [Mutex_unlock])"
      using s(2) a(3) lock(3) by (simp add: emit_def)
    moreover have "attempts (present k) (plan (PowerHint hint data) g) (faults k) =
        (io (Mutex_lock # t0 @ ta @ [Mutex_unlock]), faults (emit Mutex_unlock k2))"
      using attempts_append [OF attempts_single [OF s(3) [unfolded lock]]
          a(4) [unfolded s(4) lock]] enable
      by (simp add: io_def emit_def cstr_low_power)
    moreover have "low_power_mode (g1\<lparr>low_power_mode := True\<rparr>) =
        flag_after (PowerHint hint data) g"
      using enable by simp
    ultimately show ?thesis
      by blast
  next
    case disable
    obtain r1 k1 r2 k2 ta where a:
      "sysfs_write CPU0_SCALINGMAXFREQ_PATH (normal_max_freq g) (emit Mutex_lock k) = Some (r1, k1)"
      "sysfs_write CPU1_SCALINGMAXFREQ_PATH (normal_max_freq g) k1 = Some (r2, k2)"
      "trace k2 = trace (emit Mutex_lock k) @ ta"
      "attempts (present (emit Mutex_lock k))
         [Writes CPU0_SCALINGMAXFREQ_PATH (cstr (normal_max_freq g)),
          Writes CPU1_SCALINGMAXFREQ_PATH (cstr (normal_max_freq g))]
         (faults (emit Mutex_lock k)) = (io ta, faults k2)"
      using write_pair_io [OF assms] by blast
    have "p3_power_hint hint data (g, k) =
            Some (g\<lparr>low_power_mode := False\<rparr>, emit Mutex_unlock k2)"
      using disable a(1,2) by (simp add: p3_power_hint_def)
    moreover have "trace (emit Mutex_unlock k2) = trace k @ (Mutex_lock # ta @ [Mutex_unlock])"
      using a(3) lock(3) by (simp add: emit_def)
    moreover have "attempts (present k) (plan (PowerHint hint data) g) (faults k) =
        (io (Mutex_lock # ta @ [Mutex_unlock]), faults (emit Mutex_unlock k2))"
      using a(4) [unfolded lock] disable by (simp add: io_def emit_def)
    moreover have "low_power_mode (g\<lparr>low_power_mode := False\<rparr>) =
        flag_after (PowerHint hint data) g"
      using disable by simp
    ultimately show ?thesis
      by blast
  next
    case other
    then show ?thesis
      by (cases hint) (simp_all add: p3_power_hint_def emit_def io_def)
  qed
qed

lemma present_sample_os:
  "present (sample_os f sc) CPU0_SCALINGMAXFREQ_PATH"
  "present (sample_os f sc) CPU1_SCALINGMAXFREQ_PATH"
  "present (sample_os f sc) TOUCH_SUSPEND_PATH"
  "present (sample_os f sc) MPU3050_SUSPEND_PATH"
  by (simp_all add: present_def sample_os_simps)

section \<open>The claims\<close>

subsection \<open>C1: the guard of store\_max\_freq\<close>

text \<open>
  Claim C1.  \<open>store_max_freq\<close> always returns.  It copies the buffer that \<open>sysfs_read\<close>
  filled from the CPU0 attribute into its target exactly when the read succeeded
  (\<open>len \<noteq> -1\<close>), the first \<open>strlen (screen_off_max_freq)\<close> characters of the buffer differ
  from the screen-off frequency, and \<open>low_power_mode\<close> is false.  In every other case the
  static variables are what they were.  In both cases nothing is logged.  The target is one
  of the two static arrays of \<open>MAX_BUF_SZ\<close> bytes.
\<close>

theorem store_max_freq_guard:
  assumes "length (get_var target g) = MAX_BUF_SZ"
  shows "\<exists>g' k'. store_max_freq target (g, k) = Some (g', k') \<and>
           (case sysfs_read CPU0_SCALINGMAXFREQ_PATH (fresh_buf k) MAX_BUF_SZ k of
              ((len, buf), k1) \<Rightarrow>
                k' = k1 \<and>
                (if len \<noteq> - 1 \<and>
                    take (length (cstr screen_off_max_freq)) buf \<noteq> cstr screen_off_max_freq \<and>
                    \<not> low_power_mode g
                 then g' = set_var target buf g
                 else g' = g)) \<and>
           logged (trace k') = logged (trace k)"
proof (cases "sysfs_read CPU0_SCALINGMAXFREQ_PATH (fresh_buf k) MAX_BUF_SZ k")
  case (Pair r k1)
  obtain len buf where r: "r = (len, buf)"
    by (cases r)
  have quiet: "logged (trace k1) = logged (trace k)"
    using sysfs_read_summary [of CPU0_SCALINGMAXFREQ_PATH "fresh_buf k" MAX_BUF_SZ k] Pair
    by (auto simp: logged_append)
  have whole: "len \<noteq> - 1 \<Longrightarrow> memcpy (get_var target g) buf MAX_BUF_SZ = buf"
    using sysfs_read_pads [of CPU0_SCALINGMAXFREQ_PATH "fresh_buf k" MAX_BUF_SZ k len buf k1]
      Pair r assms by (simp add: length_fresh_buf memcpy_def)
  have guard: "take (length (cstr screen_off_max_freq)) buf = cstr screen_off_max_freq \<longleftrightarrow>
      take 6 buf = ''456000''"
    by (simp add: cstr_screen_off eval_nat_numeral)
  show ?thesis
    using Pair r quiet whole by (simp add: store_max_freq_eq guard)
qed

text \<open>
  With the attribute reading \<open>800000\<close> the value is stored, zero padded; with the attribute
  reading \<open>456000\<close> the stored value stays.
\<close>

theorem store_max_freq_guard_witness:
  "length (get_var Scaling_max_freq initial_globals) = MAX_BUF_SZ \<and>
   map_option fst (store_max_freq Scaling_max_freq (initial_globals, sample_os ''800000'' [])) =
     Some (initial_globals\<lparr>scaling_max_freq := c_array MAX_BUF_SZ ''800000''\<rparr>) \<and>
   map_option fst (store_max_freq Scaling_max_freq (initial_globals, sample_os ''456000'' [])) =
     Some initial_globals"
proof -
  have len: "length (get_var Scaling_max_freq initial_globals) = MAX_BUF_SZ"
    by (simp add: initial_globals_def c_array_def MAX_BUF_SZ_def)
  show ?thesis
    using len
      store_max_freq_guard [OF len, of "sample_os ''800000'' []"]
      store_max_freq_guard [OF len, of "sample_os ''456000'' []"]
    by (auto simp: sysfs_read_ok sample_os_simps cstr_screen_off read_buf_def c_array_def
        MAX_BUF_SZ_def initial_globals_def length_fresh_buf [unfolded MAX_BUF_SZ_def])
qed

subsection \<open>C2: what scaling\_max\_freq can hold\<close>

text \<open>
  Claim C2, as the code has it.  Take any run of the host from the initial state: any
  list of \<open>init\<close>, \<open>setInteractive\<close> and \<open>powerHint\<close> calls, each meeting its own attribute
  contents and its own failures.  In the state it ends in, \<open>scaling_max_freq\<close> does not
  begin with \<open>456000\<close>; so as a C string it is neither the screen-off frequency nor the
  low-power maximum.  And it is either the initial default, or there is a call of the run,
  an \<open>init\<close> or a \<open>setInteractive (false)\<close> entered with \<open>low_power_mode\<close> false, whose CPU0
  attribute read \<open>cont\<close>, not beginning with \<open>456000\<close>, after which \<open>scaling_max_freq\<close>
  held \<open>cont\<close> zero padded, as it still does at the end of the run.  Nothing is said
  about the screen being on at that call, nor about other values a device may have in
  low-power mode: the guard tests the prefix \<open>456000\<close> and the flag, nothing else.
\<close>

theorem scaling_max_freq_invariant:
  assumes "run cs initial_globals = Some g"
  shows "take 6 (scaling_max_freq g) \<noteq> ''456000'' \<and>
         cstr (scaling_max_freq g) \<noteq> cstr screen_off_max_freq \<and>
         cstr (scaling_max_freq g) \<noteq> LOW_POWER_MAX_FREQ \<and>
         (scaling_max_freq g = c_array MAX_BUF_SZ NORMAL_MAX_FREQ \<or>
          (\<exists>pre c k post g0 g1 cont.
             cs = pre @ (c, k) # post \<and>
             run pre initial_globals = Some g0 \<and> \<not> low_power_mode g0 \<and>
             (c = Init \<or> c = SetInteractive 0) \<and>
             run (pre @ [(c, k)]) initial_globals = Some g1 \<and>
             files k CPU0_SCALINGMAXFREQ_PATH = Some cont \<and> take 6 cont \<noteq> ''456000'' \<and>
             scaling_max_freq g1 = read_buf MAX_BUF_SZ cont \<and>
             scaling_max_freq g = scaling_max_freq g1))"
proof -
  let ?origin = "\<lambda>cs g. scaling_max_freq g = c_array MAX_BUF_SZ NORMAL_MAX_FREQ \<or>
          (\<exists>pre c k post g0 g1 cont.
             cs = pre @ (c, k) # post \<and>
             run pre initial_globals = Some g0 \<and> \<not> low_power_mode g0 \<and>
             (c = Init \<or> c = SetInteractive 0) \<and>
             run (pre @ [(c, k)]) initial_globals = Some g1 \<and>
             files k CPU0_SCALINGMAXFREQ_PATH = Some cont \<and> take 6 cont \<noteq> ''456000'' \<and>
             scaling_max_freq g1 = read_buf MAX_BUF_SZ cont \<and>
             scaling_max_freq g = scaling_max_freq g1)"
  have inv: "length (scaling_max_freq g) = MAX_BUF_SZ \<and>
             take 6 (scaling_max_freq g) \<noteq> ''456000'' \<and> ?origin cs g"
    using assms
  proof (induction cs arbitrary: g rule: rev_induct)
    case Nil
    then have "g = initial_globals"
      by simp
    then show ?case
      by (simp add: initial_globals_def c_array_def MAX_BUF_SZ_def NORMAL_MAX_FREQ_def)
  next
    case (snoc a cs)
    obtain c k where a: "a = (c, k)" by (cases a)
    obtain g0 k' where g0: "run cs initial_globals = Some g0"
      and e: "entry c (g0, k) = Some (g, k')"
      using snoc.prems by (auto simp: a run_snoc split: option.splits)
    note IH = snoc.IH [OF g0]
    from entry_scaling_change [OF e]
    consider (same) "scaling_max_freq g = scaling_max_freq g0"
      | (captured) cont where "\<not> low_power_mode g0" "c = Init \<or> c = SetInteractive 0"
        "files k CPU0_SCALINGMAXFREQ_PATH = Some cont"
        "take 6 (read_buf MAX_BUF_SZ cont) \<noteq> ''456000''"
        "scaling_max_freq g = memcpy (scaling_max_freq g0) (read_buf MAX_BUF_SZ cont) MAX_BUF_SZ"
      by blast
    then show ?case
    proof cases
      case same
      have "?origin (cs @ [a]) g"
      proof (cases "scaling_max_freq g0 = c_array MAX_BUF_SZ NORMAL_MAX_FREQ")
        case True
        then show ?thesis using same by simp
      next
        case False
        then obtain pre c1 k1 post g1 g2 cont where o:
          "cs = pre @ (c1, k1) # post" "run pre initial_globals = Some g1"
          "\<not> low_power_mode g1" "c1 = Init \<or> c1 = SetInteractive 0"
          "run (pre @ [(c1, k1)]) initial_globals = Some g2"
          "files k1 CPU0_SCALINGMAXFREQ_PATH = Some cont" "take 6 cont \<noteq> ''456000''"
          "scaling_max_freq g2 = read_buf MAX_BUF_SZ cont"
          "scaling_max_freq g0 = scaling_max_freq g2"
          using IH by blast
        have "cs @ [a] = pre @ (c1, k1) # (post @ [a])"
          using o(1) by simp
        then show ?thesis
          using o(2-9) same by (metis (no_types, lifting))
      qed
      then show ?thesis
        using IH same by simp
    next
      case captured
      have val: "scaling_max_freq g = read_buf MAX_BUF_SZ cont"
        using captured(5) IH by (simp add: memcpy_def length_read_buf)
      have run1: "run (cs @ [(c, k)]) initial_globals = Some g"
        using snoc.prems a by simp
      have pre: "take 6 cont \<noteq> ''456000''"
        using captured(4) by (simp add: take_read_buf_screen_off)
      have "cs @ [a] = cs @ (c, k) # []"
        using a by simp
      then have "?origin (cs @ [a]) g"
        using g0 captured(1,2,3) run1 pre val by blast
      then show ?thesis
        using val captured(4) by (simp add: length_read_buf)
    qed
  qed
  have "cstr (scaling_max_freq g) \<noteq> ''456000''"
  proof
    assume "cstr (scaling_max_freq g) = ''456000''"
    from cstr_take [OF this] have "take 6 (scaling_max_freq g) = ''456000''"
      by (simp add: eval_nat_numeral)
    then show False
      using inv by simp
  qed
  then show ?thesis
    using inv by (simp add: cstr_screen_off LOW_POWER_MAX_FREQ_def)
qed

text \<open>
  The run of one \<open>setInteractive (false)\<close> on a device running at \<open>800000\<close> ends with
  \<open>800000\<close> stored.
\<close>

theorem scaling_max_freq_invariant_witness:
  "run [(SetInteractive 0, sample_os ''800000'' [])] initial_globals =
     Some (initial_globals\<lparr>scaling_max_freq := c_array MAX_BUF_SZ ''800000''\<rparr>) \<and>
   take 6 (scaling_max_freq (initial_globals\<lparr>scaling_max_freq := c_array MAX_BUF_SZ ''800000''\<rparr>))
     \<noteq> ''456000'' \<and>
   cstr (scaling_max_freq (initial_globals\<lparr>scaling_max_freq := c_array MAX_BUF_SZ ''800000''\<rparr>))
     \<noteq> LOW_POWER_MAX_FREQ"
proof -
  have len: "length (scaling_max_freq initial_globals) = MAX_BUF_SZ"
    by (simp add: initial_globals_def c_array_def MAX_BUF_SZ_def)
  have "\<exists>k'. entry (SetInteractive 0) (initial_globals, sample_os ''800000'' []) =
          Some (initial_globals\<lparr>scaling_max_freq := c_array MAX_BUF_SZ ''800000''\<rparr>, k')"
    using set_interactive_off_ok [OF fault_free_sample_os [of "''800000''"]
        sample_os_simps(3) [of "''800000''" "[]"] len]
    by (simp add: read_buf_def c_array_def MAX_BUF_SZ_def initial_globals_def)
  then have r: "run [(SetInteractive 0, sample_os ''800000'' [])] initial_globals =
     Some (initial_globals\<lparr>scaling_max_freq := c_array MAX_BUF_SZ ''800000''\<rparr>)"
    by auto
  from scaling_max_freq_invariant [OF r] r show ?thesis
    by simp
qed

text \<open>
  The claim as stated says more, and that fails twice.

  It has every stored value captured while the device was interactive.  The host turns
  the screen off on a device running at \<open>1000000\<close>; the stored value is the default still.
  With the screen off the attribute comes to read \<open>300000\<close>, and the host announces screen
  off once more (the "on" call was skipped): the second call stores \<open>300000\<close>, a value read
  while the screen was off, with \<open>low_power_mode\<close> false throughout.

  It has no low-power frequency ever stored.  Of the two low-power frequencies of the
  module only the maximum, \<open>456000\<close>, is kept out: \<open>init\<close> on a device whose attribute reads
  \<open>150000\<close> stores \<open>LOW_POWER_MIN_FREQ\<close>.
\<close>

theorem scaling_max_freq_captured_screen_off:
  "run [(SetInteractive 0, sample_os ''1000000'' [])] initial_globals = Some initial_globals \<and>
   screen_on [SetInteractive 0] = False \<and>
   run [(SetInteractive 0, sample_os ''1000000'' []), (SetInteractive 0, sample_os ''300000'' [])]
     initial_globals =
     Some (initial_globals\<lparr>scaling_max_freq := c_array MAX_BUF_SZ ''300000''\<rparr>) \<and>
   c_array MAX_BUF_SZ ''300000'' \<noteq> c_array MAX_BUF_SZ NORMAL_MAX_FREQ \<and>
   c_array MAX_BUF_SZ ''300000'' \<noteq> read_buf MAX_BUF_SZ ''1000000'' \<and>
   \<not> low_power_mode initial_globals \<and>
   run [(Init, sample_os LOW_POWER_MIN_FREQ [])] initial_globals =
     Some (initial_globals\<lparr>scaling_max_freq := c_array MAX_BUF_SZ LOW_POWER_MIN_FREQ\<rparr>) \<and>
   cstr (c_array MAX_BUF_SZ LOW_POWER_MIN_FREQ) = ''150000''"
proof -
  have len: "length (scaling_max_freq initial_globals) = MAX_BUF_SZ"
    "NUL \<in> set (scaling_max_freq initial_globals)"
    by (simp_all add: initial_globals_def c_array_def MAX_BUF_SZ_def)
  have first: "\<exists>k'. p3_power_set_interactive 0 (initial_globals, sample_os ''1000000'' []) =
      Some (initial_globals, k')"
    using set_interactive_off_ok [OF fault_free_sample_os [of "''1000000''"]
        sample_os_simps(3) [of "''1000000''" "[]"] len(1)]
    by (simp add: read_buf_def c_array_def MAX_BUF_SZ_def initial_globals_def)
  have second: "\<exists>k'. p3_power_set_interactive 0 (initial_globals, sample_os ''300000'' []) =
      Some (initial_globals\<lparr>scaling_max_freq := c_array MAX_BUF_SZ ''300000''\<rparr>, k')"
    using set_interactive_off_ok [OF fault_free_sample_os [of "''300000''"]
        sample_os_simps(3) [of "''300000''" "[]"] len(1)]
    by (simp add: read_buf_def c_array_def MAX_BUF_SZ_def initial_globals_def)
  have third: "\<exists>k'. p3_power_init (initial_globals, sample_os ''150000'' []) =
      Some (initial_globals\<lparr>scaling_max_freq := c_array MAX_BUF_SZ ''150000''\<rparr>, k')"
    using init_ok [OF fault_free_sample_os [of "''150000''"]
        sample_os_simps(3) [of "''150000''" "[]"] len]
    by (simp add: read_buf_def c_array_def MAX_BUF_SZ_def initial_globals_def cstr_def)
  show ?thesis
    using first second third
    by (auto simp: screen_on_def c_array_def read_buf_def MAX_BUF_SZ_def NORMAL_MAX_FREQ_def
        LOW_POWER_MIN_FREQ_def initial_globals_def cstr_def)
qed

subsection \<open>C3: screen off, then on\<close>

text \<open>
  Claim C3.  In an environment without failures, with \<open>low_power_mode\<close> false,
  \<open>setInteractive (false)\<close> followed by \<open>setInteractive (true)\<close> leaves both CPU
  max-frequency attributes holding the string stored in \<open>scaling_max_freq\<close> by the first
  call; the second call does not change the static variables.  When the attribute did not
  read as the screen-off frequency before the first call, that string is the value the
  attribute had then.  The stored string and the live value are C strings that fit the
  buffer: the contents \<open>c\<close> of the attribute have fewer than \<open>MAX_BUF_SZ\<close> characters before
  their end or first NUL.
\<close>

theorem set_interactive_round_trip:
  assumes "fault_free k" and "files k CPU0_SCALINGMAXFREQ_PATH = Some c"
    and "length (cstr c) < MAX_BUF_SZ"
    and "\<not> low_power_mode g"
    and "length (scaling_max_freq g) = MAX_BUF_SZ" and "NUL \<in> set (scaling_max_freq g)"
    and "on \<noteq> 0"
  shows "\<exists>g1 k1 k2.
           p3_power_set_interactive 0 (g, k) = Some (g1, k1) \<and>
           p3_power_set_interactive on (g1, k1) = Some (g1, k2) \<and>
           files k2 CPU0_SCALINGMAXFREQ_PATH = Some (cstr (scaling_max_freq g1)) \<and>
           files k2 CPU1_SCALINGMAXFREQ_PATH = Some (cstr (scaling_max_freq g1)) \<and>
           (take 6 c \<noteq> ''456000'' \<longrightarrow>
              scaling_max_freq g1 = read_buf MAX_BUF_SZ c \<and> cstr (scaling_max_freq g1) = cstr c) \<and>
           (take 6 c = ''456000'' \<longrightarrow> scaling_max_freq g1 = scaling_max_freq g)"
proof -
  define g1 where "g1 =
    (if take 6 (read_buf MAX_BUF_SZ c) \<noteq> ''456000'' \<and> \<not> low_power_mode g
     then g\<lparr>scaling_max_freq := read_buf MAX_BUF_SZ c\<rparr> else g)"
  obtain k1 where off: "p3_power_set_interactive 0 (g, k) = Some (g1, k1)"
    and k1: "fault_free k1"
    using set_interactive_off_ok [OF assms(1,2,5)] fault_free_after [OF assms(1)]
    unfolding g1_def by simp
  have lp: "\<not> low_power_mode g1"
    using assms(4) by (simp add: g1_def)
  have nul: "NUL \<in> set (scaling_max_freq g1)"
    using assms(3,6) NUL_in_read_buf by (simp add: g1_def)
  obtain k2 where on: "p3_power_set_interactive on (g1, k1) = Some (g1, k2)"
    and f0: "files k2 CPU0_SCALINGMAXFREQ_PATH = Some (cstr (scaling_max_freq g1))"
    and f1: "files k2 CPU1_SCALINGMAXFREQ_PATH = Some (cstr (scaling_max_freq g1))"
    using set_interactive_on_ok [OF k1 lp assms(7) nul] paths_distinct by simp
  have "take 6 c \<noteq> ''456000'' \<longrightarrow>
          scaling_max_freq g1 = read_buf MAX_BUF_SZ c \<and> cstr (scaling_max_freq g1) = cstr c"
    using assms(3,4) cstr_read_buf by (simp add: g1_def take_read_buf_screen_off)
  moreover have "take 6 c = ''456000'' \<longrightarrow> scaling_max_freq g1 = scaling_max_freq g"
    by (simp add: g1_def take_read_buf_screen_off)
  ultimately show ?thesis
    using off on f0 f1 by blast
qed

text \<open>
  From the initial state on a device running at \<open>800000\<close>: after screen off and screen on
  both attributes read \<open>800000\<close> again.
\<close>

theorem set_interactive_round_trip_witness:
  "fault_free (sample_os ''800000'' []) \<and>
   files (sample_os ''800000'' []) CPU0_SCALINGMAXFREQ_PATH = Some ''800000'' \<and>
   length (cstr ''800000'') < MAX_BUF_SZ \<and>
   \<not> low_power_mode initial_globals \<and>
   length (scaling_max_freq initial_globals) = MAX_BUF_SZ \<and>
   NUL \<in> set (scaling_max_freq initial_globals) \<and>
   (1::int) \<noteq> 0 \<and>
   (p3_power_set_interactive 0 (initial_globals, sample_os ''800000'' []) \<bind>
      p3_power_set_interactive 1 \<bind>
      (\<lambda>(g, k). map_option (\<lambda>c1. (files k CPU0_SCALINGMAXFREQ_PATH, c1))
         (files k CPU1_SCALINGMAXFREQ_PATH))) =
     Some (Some ''800000'', ''800000'')"
proof -
  have h: "fault_free (sample_os ''800000'' [])"
    "files (sample_os ''800000'' []) CPU0_SCALINGMAXFREQ_PATH = Some ''800000''"
    "length (cstr ''800000'') < MAX_BUF_SZ"
    "\<not> low_power_mode initial_globals"
    "length (scaling_max_freq initial_globals) = MAX_BUF_SZ"
    "NUL \<in> set (scaling_max_freq initial_globals)"
    "(1::int) \<noteq> 0"
    by (simp_all add: fault_free_sample_os sample_os_simps cstr_def MAX_BUF_SZ_def
        initial_globals_def c_array_def)
  from set_interactive_round_trip [OF h]
  show ?thesis
    using h by (auto simp: cstr_def)
qed

subsection \<open>C4: screen off twice\<close>



subsection \<open>C5: low-power hint on, then off\<close>

text \<open>
  Claim C5.  In an environment without failures, the low-power hint with non-null data
  followed by the low-power hint with null data leaves both CPU max-frequency attributes
  holding the string that \<open>normal_max_freq\<close> held once the enabling hint was processed, and
  \<open>low_power_mode\<close> false.  When the enabling hint arrived outside low-power mode and the
  attribute did not read as \<open>456000\<close>, that string is the value the attribute had then.
  The stored string and the live value are C strings that fit the buffer.
\<close>

theorem low_power_hint_toggle:
  assumes "fault_free k" and "files k CPU0_SCALINGMAXFREQ_PATH = Some c"
    and "length (cstr c) < MAX_BUF_SZ"
    and "length (normal_max_freq g) = MAX_BUF_SZ" and "NUL \<in> set (normal_max_freq g)"
    and "data \<noteq> 0"
  shows "\<exists>g1 k1 g2 k2.
           p3_power_hint POWER_HINT_LOW_POWER data (g, k) = Some (g1, k1) \<and>
           p3_power_hint POWER_HINT_LOW_POWER 0 (g1, k1) = Some (g2, k2) \<and>
           files k2 CPU0_SCALINGMAXFREQ_PATH = Some (cstr (normal_max_freq g1)) \<and>
           files k2 CPU1_SCALINGMAXFREQ_PATH = Some (cstr (normal_max_freq g1)) \<and>
           low_power_mode g1 \<and> \<not> low_power_mode g2 \<and>
           normal_max_freq g2 = normal_max_freq g1 \<and>
           (\<not> low_power_mode g \<and> take 6 c \<noteq> ''456000'' \<longrightarrow>
              normal_max_freq g1 = read_buf MAX_BUF_SZ c \<and> cstr (normal_max_freq g1) = cstr c) \<and>
           (low_power_mode g \<or> take 6 c = ''456000'' \<longrightarrow>
              normal_max_freq g1 = normal_max_freq g)"
proof -
  define g1 where "g1 =
    (if take 6 (read_buf MAX_BUF_SZ c) \<noteq> ''456000'' \<and> \<not> low_power_mode g
     then g\<lparr>normal_max_freq := read_buf MAX_BUF_SZ c\<rparr> else g)\<lparr>low_power_mode := True\<rparr>"
  obtain k1 where en: "p3_power_hint POWER_HINT_LOW_POWER data (g, k) = Some (g1, k1)"
    and k1: "fault_free k1"
    using hint_enable_ok [OF assms(1,2,4,6)] fault_free_after [OF assms(1)]
    unfolding g1_def by simp
  have nul: "NUL \<in> set (normal_max_freq g1)"
    using assms(3,5) NUL_in_read_buf by (simp add: g1_def)
  obtain k2 where dis:
    "p3_power_hint POWER_HINT_LOW_POWER 0 (g1, k1) = Some (g1\<lparr>low_power_mode := False\<rparr>, k2)"
    and f0: "files k2 CPU0_SCALINGMAXFREQ_PATH = Some (cstr (normal_max_freq g1))"
    and f1: "files k2 CPU1_SCALINGMAXFREQ_PATH = Some (cstr (normal_max_freq g1))"
    using hint_disable_ok [OF k1 nul] paths_distinct by simp
  have "\<not> low_power_mode g \<and> take 6 c \<noteq> ''456000'' \<longrightarrow>
          normal_max_freq g1 = read_buf MAX_BUF_SZ c \<and> cstr (normal_max_freq g1) = cstr c"
    using assms(3) cstr_read_buf by (simp add: g1_def take_read_buf_screen_off)
  moreover have "low_power_mode g \<or> take 6 c = ''456000'' \<longrightarrow>
          normal_max_freq g1 = normal_max_freq g"
    by (auto simp: g1_def take_read_buf_screen_off)
  moreover have "low_power_mode g1"
    by (simp add: g1_def)
  ultimately show ?thesis
    using en dis f0 f1 by auto
qed

text \<open>
  From the initial state on a device running at \<open>800000\<close>: after the hint is switched on
  and off both attributes read \<open>800000\<close> and the flag is false.
\<close>

theorem low_power_hint_toggle_witness:
  "fault_free (sample_os ''800000'' []) \<and>
   files (sample_os ''800000'' []) CPU0_SCALINGMAXFREQ_PATH = Some ''800000'' \<and>
   length (cstr ''800000'') < MAX_BUF_SZ \<and>
   length (normal_max_freq initial_globals) = MAX_BUF_SZ \<and>
   NUL \<in> set (normal_max_freq initial_globals) \<and>
   (1::nat) \<noteq> 0 \<and>
   (p3_power_hint POWER_HINT_LOW_POWER 1 (initial_globals, sample_os ''800000'' []) \<bind>
      p3_power_hint POWER_HINT_LOW_POWER 0 \<bind>
      (\<lambda>(g, k). map_option (\<lambda>c1. (files k CPU0_SCALINGMAXFREQ_PATH, c1, low_power_mode g))
         (files k CPU1_SCALINGMAXFREQ_PATH))) =
     Some (Some ''800000'', ''800000'', False)"
proof -
  have h: "fault_free (sample_os ''800000'' [])"
    "files (sample_os ''800000'' []) CPU0_SCALINGMAXFREQ_PATH = Some ''800000''"
    "length (cstr ''800000'') < MAX_BUF_SZ"
    "length (normal_max_freq initial_globals) = MAX_BUF_SZ"
    "NUL \<in> set (normal_max_freq initial_globals)"
    "(1::nat) \<noteq> 0"
    by (simp_all add: fault_free_sample_os sample_os_simps cstr_def MAX_BUF_SZ_def
        initial_globals_def c_array_def)
  from low_power_hint_toggle [OF h]
  show ?thesis
    using h by (auto simp: cstr_def initial_globals_def)
qed

subsection \<open>C6: the sequence of setInteractive (false)\<close>

text \<open>
  Claim C6.  For every state \<open>setInteractive (false)\<close> returns, and its effects come in this
  order.  First the baseline is captured, from the attribute as it is at entry: the static
  variables returned are those \<open>store_max_freq\<close> computes there, that is, with \<open>len\<close> and
  \<open>buf\<close> what \<open>sysfs_read\<close> gives on the CPU0 attribute, \<open>scaling_max_freq\<close> becomes \<open>buf\<close>
  when \<open>len \<noteq> -1\<close>, \<open>buf\<close> does not begin with \<open>456000\<close> and \<open>low_power_mode\<close> is false,
  and nothing changes otherwise.  The first file opened is the CPU0 attribute, for reading.
  Then it opens for writing, in this order, the CPU0 attribute, the CPU1 attribute, the
  touch suspend attribute and the motion-sensor suspend attribute.  The data handed to
  \<open>write\<close> are, in order and as far as the files could be opened, \<open>456000\<close>, \<open>456000\<close>, \<open>1\<close>
  and \<open>1\<close>.  In an environment without failures all four writes happen and the four
  attributes read \<open>456000\<close>, \<open>456000\<close>, \<open>1\<close> and \<open>1\<close> afterwards, while the value stored is
  the one the CPU0 attribute had at entry, \<open>cont\<close> zero padded (kept out when it begins
  with \<open>456000\<close> or the flag is set).
\<close>

theorem set_interactive_off_sequence:
  "\<exists>g1 k0 k' t.
     store_max_freq Scaling_max_freq (g, k) = Some (g1, k0) \<and>
     p3_power_set_interactive 0 (g, k) = Some (g1, k') \<and>
     (case sysfs_read CPU0_SCALINGMAXFREQ_PATH (fresh_buf k) MAX_BUF_SZ k of
        ((len, buf), k1) \<Rightarrow>
          g1 = (if len \<noteq> - 1 \<and> take 6 buf \<noteq> ''456000'' \<and> \<not> low_power_mode g
                then g\<lparr>scaling_max_freq := memcpy (scaling_max_freq g) buf MAX_BUF_SZ\<rparr>
                else g)) \<and>
     trace k' = trace k @ t \<and>
     opened t = [(CPU0_SCALINGMAXFREQ_PATH, O_RDONLY), (CPU0_SCALINGMAXFREQ_PATH, O_WRONLY),
                 (CPU1_SCALINGMAXFREQ_PATH, O_WRONLY), (TOUCH_SUSPEND_PATH, O_WRONLY),
                 (MPU3050_SUSPEND_PATH, O_WRONLY)] \<and>
     subseq (written t)
       [(CPU0_SCALINGMAXFREQ_PATH, ''456000''), (CPU1_SCALINGMAXFREQ_PATH, ''456000''),
        (TOUCH_SUSPEND_PATH, ''1''), (MPU3050_SUSPEND_PATH, ''1'')] \<and>
     (fault_free k \<longrightarrow>
        written t =
          [(CPU0_SCALINGMAXFREQ_PATH, ''456000''), (CPU1_SCALINGMAXFREQ_PATH, ''456000''),
           (TOUCH_SUSPEND_PATH, ''1''), (MPU3050_SUSPEND_PATH, ''1'')] \<and>
        files k' = (files k)(CPU0_SCALINGMAXFREQ_PATH \<mapsto> ''456000'',
                     CPU1_SCALINGMAXFREQ_PATH \<mapsto> ''456000'', TOUCH_SUSPEND_PATH \<mapsto> ''1'',
                     MPU3050_SUSPEND_PATH \<mapsto> ''1'') \<and>
        (\<forall>cont. files k CPU0_SCALINGMAXFREQ_PATH = Some cont \<and>
                length (scaling_max_freq g) = MAX_BUF_SZ \<longrightarrow>
           g1 = (if take 6 cont \<noteq> ''456000'' \<and> \<not> low_power_mode g
                 then g\<lparr>scaling_max_freq := read_buf MAX_BUF_SZ cont\<rparr> else g)))"
proof -
  have one: "strlen (c_lit ''1'') = Some 1" "take 1 (c_lit ''1'') = ''1''"
    by (simp_all add: c_lit_def)
  have off: "take 6 screen_off_max_freq = ''456000''"
    by (simp add: screen_off_max_freq_def c_array_def)
  obtain g1 k0 t0 where s0: "store_max_freq Scaling_max_freq (g, k) = Some (g1, k0)"
    and t0: "trace k0 = trace k @ t0" "opened t0 = [(CPU0_SCALINGMAXFREQ_PATH, O_RDONLY)]"
      "written t0 = []" "files k0 = files k" "faults k = [] \<longrightarrow> faults k0 = []"
    using store_max_freq_summary [of Scaling_max_freq g k] by blast
  have pin: "case sysfs_read CPU0_SCALINGMAXFREQ_PATH (fresh_buf k) MAX_BUF_SZ k of
        ((len, buf), k1) \<Rightarrow>
          g1 = (if len \<noteq> - 1 \<and> take 6 buf \<noteq> ''456000'' \<and> \<not> low_power_mode g
                then g\<lparr>scaling_max_freq := memcpy (scaling_max_freq g) buf MAX_BUF_SZ\<rparr>
                else g)"
    using s0 by (auto simp: store_max_freq_eq split: prod.splits)
  obtain r1 k1 t1 where s1:
    "sysfs_write CPU0_SCALINGMAXFREQ_PATH screen_off_max_freq k0 = Some (r1, k1)"
    and t1: "trace k1 = trace k0 @ t1" "opened t1 = [(CPU0_SCALINGMAXFREQ_PATH, O_WRONLY)]"
      "subseq (written t1) [(CPU0_SCALINGMAXFREQ_PATH, ''456000'')]"
      "\<forall>q. files k0 q \<noteq> None \<longrightarrow> files k1 q \<noteq> None"
    using sysfs_write_summary [OF strlen_screen_off, of CPU0_SCALINGMAXFREQ_PATH k0] off
    by auto
  obtain r2 k2 t2 where s2:
    "sysfs_write CPU1_SCALINGMAXFREQ_PATH screen_off_max_freq k1 = Some (r2, k2)"
    and t2: "trace k2 = trace k1 @ t2" "opened t2 = [(CPU1_SCALINGMAXFREQ_PATH, O_WRONLY)]"
      "subseq (written t2) [(CPU1_SCALINGMAXFREQ_PATH, ''456000'')]"
      "\<forall>q. files k1 q \<noteq> None \<longrightarrow> files k2 q \<noteq> None"
    using sysfs_write_summary [OF strlen_screen_off, of CPU1_SCALINGMAXFREQ_PATH k1] off
    by auto
  obtain r3 k3 t3 where s3: "sysfs_write TOUCH_SUSPEND_PATH (c_lit ''1'') k2 = Some (r3, k3)"
    and t3: "trace k3 = trace k2 @ t3" "opened t3 = [(TOUCH_SUSPEND_PATH, O_WRONLY)]"
      "subseq (written t3) [(TOUCH_SUSPEND_PATH, ''1'')]"
      "\<forall>q. files k2 q \<noteq> None \<longrightarrow> files k3 q \<noteq> None"
    using sysfs_write_summary [OF one(1), of TOUCH_SUSPEND_PATH k2] one(2) by auto
  obtain r4 k4 t4 where s4: "sysfs_write MPU3050_SUSPEND_PATH (c_lit ''1'') k3 = Some (r4, k4)"
    and t4: "trace k4 = trace k3 @ t4" "opened t4 = [(MPU3050_SUSPEND_PATH, O_WRONLY)]"
      "subseq (written t4) [(MPU3050_SUSPEND_PATH, ''1'')]"
    using sysfs_write_summary [OF one(1), of MPU3050_SUSPEND_PATH k3] one(2) by auto
  define t where "t = t0 @ t1 @ t2 @ t3 @ t4"
  have run: "p3_power_set_interactive 0 (g, k) = Some (g1, k4)"
    using s0 s1 s2 s3 s4 by (simp add: p3_power_set_interactive_def)
  have tr: "trace k4 = trace k @ t"
    using t0(1) t1(1) t2(1) t3(1) t4(1) by (simp add: t_def)
  have op: "opened t = [(CPU0_SCALINGMAXFREQ_PATH, O_RDONLY), (CPU0_SCALINGMAXFREQ_PATH, O_WRONLY),
                 (CPU1_SCALINGMAXFREQ_PATH, O_WRONLY), (TOUCH_SUSPEND_PATH, O_WRONLY),
                 (MPU3050_SUSPEND_PATH, O_WRONLY)]"
    using t0(2) t1(2) t2(2) t3(2) t4(2) by (simp add: t_def opened_append)
  have wr: "written t = written t1 @ written t2 @ written t3 @ written t4"
    using t0(3) by (simp add: t_def written_append)
  have "subseq (written t1 @ written t2 @ written t3 @ written t4)
          ([(CPU0_SCALINGMAXFREQ_PATH, ''456000'')] @ [(CPU1_SCALINGMAXFREQ_PATH, ''456000'')] @
           [(TOUCH_SUSPEND_PATH, ''1'')] @ [(MPU3050_SUSPEND_PATH, ''1'')])"
    by (intro list_emb_append_mono t1(3) t2(3) t3(3) t4(3))
  then have sub: "subseq (written t)
       [(CPU0_SCALINGMAXFREQ_PATH, ''456000''), (CPU1_SCALINGMAXFREQ_PATH, ''456000''),
        (TOUCH_SUSPEND_PATH, ''1''), (MPU3050_SUSPEND_PATH, ''1'')]"
    using wr by simp
  have full: "fault_free k \<longrightarrow>
        written t =
          [(CPU0_SCALINGMAXFREQ_PATH, ''456000''), (CPU1_SCALINGMAXFREQ_PATH, ''456000''),
           (TOUCH_SUSPEND_PATH, ''1''), (MPU3050_SUSPEND_PATH, ''1'')] \<and>
        files k4 = (files k)(CPU0_SCALINGMAXFREQ_PATH \<mapsto> ''456000'',
                     CPU1_SCALINGMAXFREQ_PATH \<mapsto> ''456000'', TOUCH_SUSPEND_PATH \<mapsto> ''1'',
                     MPU3050_SUSPEND_PATH \<mapsto> ''1'') \<and>
        (\<forall>cont. files k CPU0_SCALINGMAXFREQ_PATH = Some cont \<and>
                length (scaling_max_freq g) = MAX_BUF_SZ \<longrightarrow>
           g1 = (if take 6 cont \<noteq> ''456000'' \<and> \<not> low_power_mode g
                 then g\<lparr>scaling_max_freq := read_buf MAX_BUF_SZ cont\<rparr> else g))"
  proof (rule impI)
    assume ff: "fault_free k"
    obtain c where c: "files k CPU0_SCALINGMAXFREQ_PATH = Some c"
      using ff by (auto simp: fault_free_def)
    note ok = set_interactive_off_ok_any [OF ff c, of g]
    have k4: "k4 = k\<lparr>trace := trace k @
                      [Open CPU0_SCALINGMAXFREQ_PATH O_RDONLY, Read CPU0_SCALINGMAXFREQ_PATH,
                       Close CPU0_SCALINGMAXFREQ_PATH,
                       Open CPU0_SCALINGMAXFREQ_PATH O_WRONLY,
                       Write CPU0_SCALINGMAXFREQ_PATH ''456000'', Close CPU0_SCALINGMAXFREQ_PATH,
                       Open CPU1_SCALINGMAXFREQ_PATH O_WRONLY,
                       Write CPU1_SCALINGMAXFREQ_PATH ''456000'', Close CPU1_SCALINGMAXFREQ_PATH,
                       Open TOUCH_SUSPEND_PATH O_WRONLY, Write TOUCH_SUSPEND_PATH ''1'',
                       Close TOUCH_SUSPEND_PATH,
                       Open MPU3050_SUSPEND_PATH O_WRONLY, Write MPU3050_SUSPEND_PATH ''1'',
                       Close MPU3050_SUSPEND_PATH],
                     files := (files k)(CPU0_SCALINGMAXFREQ_PATH \<mapsto> ''456000'',
                       CPU1_SCALINGMAXFREQ_PATH \<mapsto> ''456000'', TOUCH_SUSPEND_PATH \<mapsto> ''1'',
                       MPU3050_SUSPEND_PATH \<mapsto> ''1'')\<rparr>"
      and g1: "g1 = (if take 6 (read_buf MAX_BUF_SZ c) \<noteq> ''456000'' \<and> \<not> low_power_mode g
                 then g\<lparr>scaling_max_freq :=
                        memcpy (scaling_max_freq g) (read_buf MAX_BUF_SZ c) MAX_BUF_SZ\<rparr>
                 else g)"
      using run ok by simp_all
    have "t = [Open CPU0_SCALINGMAXFREQ_PATH O_RDONLY, Read CPU0_SCALINGMAXFREQ_PATH,
                       Close CPU0_SCALINGMAXFREQ_PATH,
                       Open CPU0_SCALINGMAXFREQ_PATH O_WRONLY,
                       Write CPU0_SCALINGMAXFREQ_PATH ''456000'', Close CPU0_SCALINGMAXFREQ_PATH,
                       Open CPU1_SCALINGMAXFREQ_PATH O_WRONLY,
                       Write CPU1_SCALINGMAXFREQ_PATH ''456000'', Close CPU1_SCALINGMAXFREQ_PATH,
                       Open TOUCH_SUSPEND_PATH O_WRONLY, Write TOUCH_SUSPEND_PATH ''1'',
                       Close TOUCH_SUSPEND_PATH,
                       Open MPU3050_SUSPEND_PATH O_WRONLY, Write MPU3050_SUSPEND_PATH ''1'',
                       Close MPU3050_SUSPEND_PATH]"
      using tr k4 by simp
    then have w: "written t =
          [(CPU0_SCALINGMAXFREQ_PATH, ''456000''), (CPU1_SCALINGMAXFREQ_PATH, ''456000''),
           (TOUCH_SUSPEND_PATH, ''1''), (MPU3050_SUSPEND_PATH, ''1'')]"
      by simp
    have f: "files k4 = (files k)(CPU0_SCALINGMAXFREQ_PATH \<mapsto> ''456000'',
                     CPU1_SCALINGMAXFREQ_PATH \<mapsto> ''456000'', TOUCH_SUSPEND_PATH \<mapsto> ''1'',
                     MPU3050_SUSPEND_PATH \<mapsto> ''1'')"
      by (subst k4) simp
    have "g1 = (if take 6 cont \<noteq> ''456000'' \<and> \<not> low_power_mode g
                 then g\<lparr>scaling_max_freq := read_buf MAX_BUF_SZ cont\<rparr> else g)"
      if "files k CPU0_SCALINGMAXFREQ_PATH = Some cont"
        and "length (scaling_max_freq g) = MAX_BUF_SZ" for cont
      using that c g1 by (simp add: take_read_buf_screen_off memcpy_def length_read_buf)
    then show "written t =
          [(CPU0_SCALINGMAXFREQ_PATH, ''456000''), (CPU1_SCALINGMAXFREQ_PATH, ''456000''),
           (TOUCH_SUSPEND_PATH, ''1''), (MPU3050_SUSPEND_PATH, ''1'')] \<and>
        files k4 = (files k)(CPU0_SCALINGMAXFREQ_PATH \<mapsto> ''456000'',
                     CPU1_SCALINGMAXFREQ_PATH \<mapsto> ''456000'', TOUCH_SUSPEND_PATH \<mapsto> ''1'',
                     MPU3050_SUSPEND_PATH \<mapsto> ''1'') \<and>
        (\<forall>cont. files k CPU0_SCALINGMAXFREQ_PATH = Some cont \<and>
                length (scaling_max_freq g) = MAX_BUF_SZ \<longrightarrow>
           g1 = (if take 6 cont \<noteq> ''456000'' \<and> \<not> low_power_mode g
                 then g\<lparr>scaling_max_freq := read_buf MAX_BUF_SZ cont\<rparr> else g))"
      using w f by blast
  qed
  show ?thesis
    by (intro exI [of _ g1] exI [of _ k0] exI [of _ k4] exI [of _ t] conjI
        s0 run pin tr op sub full)
qed

text \<open>
  On a device running at \<open>800000\<close> where nothing fails: \<open>800000\<close> is stored, the four
  writes are in the trace, and both CPU attributes read \<open>456000\<close> afterwards.
\<close>

theorem set_interactive_off_sequence_witness:
  "fault_free (sample_os ''800000'' []) \<and>
   files (sample_os ''800000'' []) CPU0_SCALINGMAXFREQ_PATH = Some ''800000'' \<and>
   length (scaling_max_freq initial_globals) = MAX_BUF_SZ \<and>
   map_option (\<lambda>(g, k). (scaling_max_freq g, written (trace k),
        files k CPU0_SCALINGMAXFREQ_PATH, files k CPU1_SCALINGMAXFREQ_PATH))
     (p3_power_set_interactive 0 (initial_globals, sample_os ''800000'' [])) =
   Some (c_array MAX_BUF_SZ ''800000'',
         [(CPU0_SCALINGMAXFREQ_PATH, ''456000''), (CPU1_SCALINGMAXFREQ_PATH, ''456000''),
          (TOUCH_SUSPEND_PATH, ''1''), (MPU3050_SUSPEND_PATH, ''1'')],
         Some ''456000'', Some ''456000'')"
proof -
  have h: "fault_free (sample_os ''800000'' [])"
    "files (sample_os ''800000'' []) CPU0_SCALINGMAXFREQ_PATH = Some ''800000''"
    "length (scaling_max_freq initial_globals) = MAX_BUF_SZ"
    by (simp_all add: fault_free_sample_os sample_os_simps initial_globals_def c_array_def
        MAX_BUF_SZ_def)
  from set_interactive_off_sequence [of initial_globals "sample_os ''800000'' []"]
  show ?thesis
    using h paths_distinct
    by (auto simp: sample_os_simps read_buf_def c_array_def MAX_BUF_SZ_def initial_globals_def)
qed

subsection \<open>C7: failures do not stop an entry point\<close>

text \<open>
  Claim C7.  Whatever the script of faults and whichever attributes are missing, every
  entry point returns, and the system calls it made are exactly those of its accesses,
  each attempted in turn whatever became of the earlier ones: every file of the list is
  opened, and every string of the list is handed to \<open>write\<close> wherever its file could be
  opened.  In particular \<open>setInteractive (false)\<close> opens and writes the motion-sensor
  suspend attribute whether or not the touch suspend write went through.  The low-power
  flag is set or cleared as the call says, failures or not.  The stored frequencies are C
  strings, and for \<open>init\<close>, which prints what it stored, the live value fits the buffer
  with its terminator.
\<close>

theorem entry_attempts_every_access:
  assumes "NUL \<in> set (scaling_max_freq g)" and "NUL \<in> set (normal_max_freq g)"
    and "c = Init \<longrightarrow>
      (\<forall>cont. files k CPU0_SCALINGMAXFREQ_PATH = Some cont \<longrightarrow> length (cstr cont) < MAX_BUF_SZ)"
  shows "\<exists>g' k' t. entry c (g, k) = Some (g', k') \<and> trace k' = trace k @ t \<and>
           attempts (present k) (plan c g) (faults k) = (io t, faults k') \<and>
           low_power_mode g' = flag_after c g"
proof (cases c)
  case Init
  then show ?thesis
    using init_io [OF assms(1), of k] assms(3) by simp
next
  case (SetInteractive on)
  then show ?thesis
    using set_interactive_io [OF assms(1), of on k] by simp
next
  case (PowerHint hint data)
  then show ?thesis
    using hint_io [OF assms(2), of hint data k] by simp
qed

text \<open>
  Three runs.  \<open>init\<close> where opening the CPU0 attribute is refused returns after the one
  attempt.  Screen off where the write to the touch suspend attribute fails (the eighth
  system call): the attribute keeps its \<open>0\<close>, and the motion-sensor attribute is opened
  and written all the same.  The enabling hint where both the capture and the CPU0 write
  cannot open their file: CPU1 is written and the flag is set.
\<close>

theorem entry_attempts_every_access_witness:
  "NUL \<in> set (scaling_max_freq initial_globals) \<and>
   NUL \<in> set (normal_max_freq initial_globals) \<and>
   map_option (length \<circ> cstr) (files (sample_os ''800000'' [Some EACCES]) CPU0_SCALINGMAXFREQ_PATH) =
     Some 6 \<and>
   map_option (io \<circ> trace \<circ> snd)
     (entry Init (initial_globals, sample_os ''800000'' [Some EACCES])) =
   Some [Open CPU0_SCALINGMAXFREQ_PATH O_RDONLY] \<and>
   map_option (io \<circ> trace \<circ> snd)
     (entry (SetInteractive 0)
        (initial_globals,
         sample_os ''800000'' [None, None, None, None, None, None, None, Some EIO])) =
   Some [Open CPU0_SCALINGMAXFREQ_PATH O_RDONLY, Read CPU0_SCALINGMAXFREQ_PATH,
         Close CPU0_SCALINGMAXFREQ_PATH,
         Open CPU0_SCALINGMAXFREQ_PATH O_WRONLY, Write CPU0_SCALINGMAXFREQ_PATH ''456000'',
         Close CPU0_SCALINGMAXFREQ_PATH,
         Open CPU1_SCALINGMAXFREQ_PATH O_WRONLY, Write CPU1_SCALINGMAXFREQ_PATH ''456000'',
         Close CPU1_SCALINGMAXFREQ_PATH,
         Open TOUCH_SUSPEND_PATH O_WRONLY, Write TOUCH_SUSPEND_PATH ''1'',
         Close TOUCH_SUSPEND_PATH,
         Open MPU3050_SUSPEND_PATH O_WRONLY, Write MPU3050_SUSPEND_PATH ''1'',
         Close MPU3050_SUSPEND_PATH] \<and>
   map_option (\<lambda>(g, k). (low_power_mode g, io (trace k)))
     (entry (PowerHint POWER_HINT_LOW_POWER 1)
        (initial_globals, sample_os ''800000'' [Some EINTR, Some ENOENT])) =
   Some (True,
         [Open CPU0_SCALINGMAXFREQ_PATH O_RDONLY,
          Open CPU0_SCALINGMAXFREQ_PATH O_WRONLY,
          Open CPU1_SCALINGMAXFREQ_PATH O_WRONLY, Write CPU1_SCALINGMAXFREQ_PATH ''456000'',
          Close CPU1_SCALINGMAXFREQ_PATH]) \<and>
   map_option (\<lambda>(g, k). files k TOUCH_SUSPEND_PATH)
     (entry (SetInteractive 0)
        (initial_globals,
         sample_os ''800000'' [None, None, None, None, None, None, None, Some EIO])) =
   Some (Some ''0'')"
proof -
  have h: "NUL \<in> set (scaling_max_freq initial_globals)"
    "NUL \<in> set (normal_max_freq initial_globals)"
    by (simp_all add: initial_globals_def c_array_def MAX_BUF_SZ_def)
  have fits: "\<forall>cont. files (sample_os ''800000'' [Some EACCES]) CPU0_SCALINGMAXFREQ_PATH = Some cont \<longrightarrow>
      length (cstr cont) < MAX_BUF_SZ"
    by (simp add: sample_os_simps cstr_def MAX_BUF_SZ_def)
  have kept: "map_option (\<lambda>(g, k). files k TOUCH_SUSPEND_PATH)
     (entry (SetInteractive 0)
        (initial_globals,
         sample_os ''800000'' [None, None, None, None, None, None, None, Some EIO])) =
   Some (Some ''0'')"
    by code_simp
  from entry_attempts_every_access [OF h, of "SetInteractive 0"
      "sample_os ''800000'' [None, None, None, None, None, None, None, Some EIO]"]
    entry_attempts_every_access [OF h, of Init "sample_os ''800000'' [Some EACCES]"]
    entry_attempts_every_access [OF h, of "PowerHint POWER_HINT_LOW_POWER 1"
      "sample_os ''800000'' [Some EINTR, Some ENOENT]"]
  show ?thesis
    using h fits kept
    by (auto simp: sample_os_simps present_sample_os cstr_def interrupts_def
        LOW_POWER_MAX_FREQ_def)
qed

subsection \<open>C8: the buffer sysfs\_read leaves\<close>

text \<open>
  Claim C8 says that after a successful \<open>sysfs_read\<close> the bytes from the length read up to
  \<open>size\<close> are zero (lemma \<open>sysfs_read_pads\<close> proves that part) and that the buffer always
  holds a zero byte within its size.  The second part fails when the attribute has \<open>size\<close>
  bytes or more: the read fills the ten bytes of the buffer, \<open>len < size\<close> is false, nothing
  is zeroed, and the buffer has no terminator.  \<open>p3_power_init\<close> then stores the buffer and
  prints it with \<open>%s\<close>, which reads past the end of \<open>scaling_max_freq\<close>.
\<close>

theorem sysfs_read_full_buffer_unterminated:
  "fst (sysfs_read CPU0_SCALINGMAXFREQ_PATH (fresh_buf (sample_os ''1000000000'' [])) MAX_BUF_SZ
          (sample_os ''1000000000'' [])) = (10, ''1000000000'') \<and>
   NUL \<notin> set ''1000000000'' \<and>
   strlen ''1000000000'' = None \<and>
   p3_power_init (initial_globals, sample_os ''1000000000'' []) = None"
  by (simp add: sysfs_read_ok sample_os_simps read_buf_def MAX_BUF_SZ_def p3_power_init_def
      store_max_freq_eq memcpy_def initial_globals_def c_array_def
      length_fresh_buf [unfolded MAX_BUF_SZ_def])

subsection \<open>C9: hints other than the low-power hint\<close>

text \<open>
  Claim C9.  For every hint other than \<open>POWER_HINT_LOW_POWER\<close> (vsync, interaction, launch or
  any other value) \<open>p3_power_hint\<close> returns with the static variables as they were, so
  \<open>low_power_mode\<close>, \<open>scaling_max_freq\<close> and \<open>normal_max_freq\<close> are unchanged
  (\<open>screen_off_max_freq\<close> is never assigned at all); the attributes and the fault script are
  untouched, and the trace gains no \<open>open\<close> and no \<open>write\<close>: at most the launch hint's
  verbose log line.
\<close>

theorem p3_power_hint_other_hints:
  assumes "hint \<noteq> POWER_HINT_LOW_POWER"
  shows "\<exists>k' t. p3_power_hint hint data (g, k) = Some (g, k') \<and>
           files k' = files k \<and> faults k' = faults k \<and>
           trace k' = trace k @ t \<and> opened t = [] \<and> written t = []"
  using assms by (cases hint) (simp_all add: p3_power_hint_def emit_def)

theorem p3_power_hint_other_hints_witness:
  "POWER_HINT_LAUNCH \<noteq> POWER_HINT_LOW_POWER \<and>
   map_option fst (p3_power_hint POWER_HINT_LAUNCH 1 (initial_globals, sample_os ''1000000'' [])) =
     Some initial_globals"
  using p3_power_hint_other_hints [of POWER_HINT_LAUNCH 1 initial_globals "sample_os ''1000000'' []"]
  by auto

subsection \<open>C10: a repeated enabling hint\<close>

text \<open>
  Claim C10.  When \<open>low_power_mode\<close> is already true, the low-power hint with non-null data
  returns and leaves \<open>normal_max_freq\<close> as it was (indeed all static variables): the
  capture runs while the flag is set and is rejected, whatever the attribute reads and
  whichever system calls fail.
\<close>

theorem p3_power_hint_enable_twice:
  assumes "low_power_mode g" and "data \<noteq> 0"
  shows "\<exists>g' k'. p3_power_hint POWER_HINT_LOW_POWER data (g, k) = Some (g', k') \<and>
           normal_max_freq g' = normal_max_freq g \<and> g' = g"
proof -
  obtain k1 where st: "store_max_freq Normal_max_freq (g, emit Mutex_lock k) = Some (g, k1)"
    using store_max_freq_low_power [OF assms(1)] by blast
  obtain r2 k2 where w2:
    "sysfs_write CPU0_SCALINGMAXFREQ_PATH (c_lit LOW_POWER_MAX_FREQ) k1 = Some (r2, k2)"
    using sysfs_write_summary [OF strlen_low_power] by blast
  obtain r3 k3 where w3:
    "sysfs_write CPU1_SCALINGMAXFREQ_PATH (c_lit LOW_POWER_MAX_FREQ) k2 = Some (r3, k3)"
    using sysfs_write_summary [OF strlen_low_power] by blast
  show ?thesis
    using assms st w2 w3 by (simp add: p3_power_hint_def)
qed

theorem p3_power_hint_enable_twice_witness:
  "low_power_mode (initial_globals\<lparr>low_power_mode := True\<rparr>) \<and> (1::nat) \<noteq> 0 \<and>
   map_option (normal_max_freq \<circ> fst)
     (p3_power_hint POWER_HINT_LOW_POWER 1
        (initial_globals\<lparr>low_power_mode := True\<rparr>, sample_os ''800000'' [])) =
     Some (c_array MAX_BUF_SZ ''1000000'')"
  using p3_power_hint_enable_twice
    [of "initial_globals\<lparr>low_power_mode := True\<rparr>" 1 "sample_os ''800000'' []"]
  by (auto simp: initial_globals_def)

end
